theory Spec2Isabelle
  imports Complex_Main "HOL-Library.AList"
begin

section \<open>System Maintenance Toolkit: a shallow embedding\<close>

text \<open>
  The program is one Python class, \<open>SystemMaintenanceToolkit\<close>, whose three operations
  (\<open>start_health_check\<close>, \<open>disk_cleanup\<close>, \<open>defragment_drives\<close>) run on a worker thread,
  write to log files through the \<open>logging\<close> module and talk to the Tk widgets either
  directly or through \<open>self.gui_queue\<close>.

  Conventions of the embedding:
  \<^item> the instance and the world it touches are one record, \<open>toolkit\<close>, passed explicitly;
  \<^item> what the operating system answers (the elevation probe, the external processes,
    the environment variables) is a record of oracles, \<open>env\<close>;
  \<^item> an exception that leaves an operation is the result \<open>Raised\<close>;
  \<^item> every direct widget access is recorded with the thread that performs it;
  \<^item> a log line is the pair of its level and message (the \<open>asctime\<close> prefix is left out);
  \<^item> the progress values, Python floats, are idealised as rationals;
  \<^item> console output (\<open>print\<close>, the root logger, tracebacks) is not part of the state.
\<close>

subsection \<open>Text helpers\<close>

definition newline :: string where
  "newline = [CHR 0x0A]"

definition backslash :: string where
  "backslash = [CHR 0x5C]"

definition quote :: string where
  "quote = [CHR 0x27]"

definition digit_char :: "nat \<Rightarrow> char" where
  "digit_char d =
     (if d = 0 then CHR ''0'' else if d = 1 then CHR ''1'' else if d = 2 then CHR ''2''
      else if d = 3 then CHR ''3'' else if d = 4 then CHR ''4'' else if d = 5 then CHR ''5''
      else if d = 6 then CHR ''6'' else if d = 7 then CHR ''7'' else if d = 8 then CHR ''8''
      else CHR ''9'')"

text \<open>\<open>str(n)\<close> for a natural number and for an integer.\<close>

fun str_nat :: "nat \<Rightarrow> string" where
  "str_nat n = (if n < 10 then [digit_char n] else str_nat (n div 10) @ [digit_char (n mod 10)])"

declare str_nat.simps [simp del]

definition str_int :: "int \<Rightarrow> string" where
  "str_int i = (if i < 0 then ''-'' @ str_nat (nat (- i)) else str_nat (nat i))"

text \<open>\<open>str.lower()\<close> on ASCII letters.\<close>

definition lower_char :: "char \<Rightarrow> char" where
  "lower_char c =
     (case map_of
        [(CHR ''A'', CHR ''a''), (CHR ''B'', CHR ''b''), (CHR ''C'', CHR ''c''), (CHR ''D'', CHR ''d''),
         (CHR ''E'', CHR ''e''), (CHR ''F'', CHR ''f''), (CHR ''G'', CHR ''g''), (CHR ''H'', CHR ''h''),
         (CHR ''I'', CHR ''i''), (CHR ''J'', CHR ''j''), (CHR ''K'', CHR ''k''), (CHR ''L'', CHR ''l''),
         (CHR ''M'', CHR ''m''), (CHR ''N'', CHR ''n''), (CHR ''O'', CHR ''o''), (CHR ''P'', CHR ''p''),
         (CHR ''Q'', CHR ''q''), (CHR ''R'', CHR ''r''), (CHR ''S'', CHR ''s''), (CHR ''T'', CHR ''t''),
         (CHR ''U'', CHR ''u''), (CHR ''V'', CHR ''v''), (CHR ''W'', CHR ''w''), (CHR ''X'', CHR ''x''),
         (CHR ''Y'', CHR ''y''), (CHR ''Z'', CHR ''z'')] c of
        None \<Rightarrow> c | Some l \<Rightarrow> l)"

definition lower :: "string \<Rightarrow> string" where
  "lower s = map lower_char s"

text \<open>\<open>s.replace(a, b)\<close> for single characters \<open>a\<close> and \<open>b\<close>.\<close>

definition replace_char :: "char \<Rightarrow> char \<Rightarrow> string \<Rightarrow> string" where
  "replace_char a b s = map (\<lambda>c. if c = a then b else c) s"

text \<open>\<open>str.strip()\<close>: leading and trailing ASCII whitespace removed.\<close>

definition isspace :: "char \<Rightarrow> bool" where
  "isspace c = (c \<in> set [CHR '' '', CHR 0x09, CHR 0x0A, CHR 0x0B, CHR 0x0C, CHR 0x0D])"

definition strip :: "string \<Rightarrow> string" where
  "strip s = rev (dropWhile isspace (rev (dropWhile isspace s)))"

subsection \<open>Data\<close>

datatype level = DEBUG | INFO | WARNING | ERROR

fun levelno :: "level \<Rightarrow> nat" where
  "levelno DEBUG = 10"
| "levelno INFO = 20"
| "levelno WARNING = 30"
| "levelno ERROR = 40"

type_synonym log_line = "level \<times> string"

text \<open>The widgets \<open>create_section\<close> stores on the instance, one info panel and one progress
  bar per section label.\<close>

datatype panel = system_health_check_info | disk_cleanup_info | defragment_and_optimize_drives_info

datatype bar =
  system_health_check_progress | disk_cleanup_progress | defragment_and_optimize_drives_progress

datatype thread = UIThread | WorkerThread

datatype widget_op =
  PanelDelete panel | PanelInsert panel string | BarValue bar rat | BarMaximum bar rat

text \<open>An item of \<open>self.gui_queue\<close>: a bound method with its arguments.\<close>

datatype gui_call =
  Call_update_info_panel panel string
| Call_reset_progress_bar_with_delay bar nat

text \<open>A callback registered with \<open>root.after(delay, ...)\<close>.\<close>

datatype callback = Cb_process_gui_queue | Cb_reset_value bar

datatype exn = KeyError string | OtherException string

datatype outcome = Returned | Raised exn

text \<open>What \<open>unlink\<close> or \<open>rmdir\<close> does to a file-system entry: it succeeds, raises
  \<open>PermissionError\<close> with its \<open>errno\<close> and \<open>winerror\<close>, or raises another \<open>OSError\<close>.\<close>

datatype del_result = Deletes | PermissionError int int | OSError string

datatype node = File string del_result | Dir string del_result "node list"

record toolkit =
  loggers :: "(string \<times> string) list"
  handlers :: "(string \<times> string list) list"
  log_dir :: "(string \<times> log_line list) list"
  gui_queue :: "gui_call list"
  after_calls :: "(nat \<times> callback) list"
  panel_text :: "panel \<Rightarrow> string"
  bar_value :: "bar \<Rightarrow> rat"
  bar_maximum :: "bar \<Rightarrow> rat"
  widget_ops :: "(thread \<times> widget_op) list"
  launched :: "string list"
  filesystem :: "(string \<times> node list) list"
  dialogs :: "(string \<times> string) list"

text \<open>
  \<^item> \<open>loggers\<close> is \<open>self.loggers\<close>: key to logger, a logger being known by its name;
  \<^item> \<open>handlers\<close> is the registry of the \<open>logging\<close> module: for each logger name the files its
    attached \<open>FileHandler\<close>s hold open;
  \<^item> \<open>log_dir\<close> is the directory \<open>LOG_DIR\<close>: file name to lines;
  \<^item> \<open>after_calls\<close> are the pending \<open>root.after\<close> timers;
  \<^item> \<open>launched\<close> lists the command lines handed to \<open>subprocess\<close>;
  \<^item> \<open>filesystem\<close> maps a cleanup path that exists to the entries below it.
\<close>

datatype probe = IsUserAnAdmin bool | ProbeRaises string

text \<open>\<open>subprocess.Popen\<close> for a drive: a process that is found alive by the first
  \<open>alive\<close> polls and then exits with a return code and its standard error; or an exception.\<close>

datatype popen_result =
  Process nat int string | PopenCalledProcessError string | PopenRaises string

text \<open>\<open>subprocess.run\<close> with \<open>timeout=3600\<close>: a completed process with its return code and
  the lines of its output, \<open>TimeoutExpired\<close>, or another exception.\<close>

datatype run_result = CompletedProcess int "string list" | TimeoutExpired | RunRaises string

record env =
  admin_probe :: probe
  Popen :: "string \<Rightarrow> popen_result"
  subprocess_run :: "string \<Rightarrow> run_result"
  getenv_TEMP :: "string option"
  home_dir :: string

subsection \<open>Loggers\<close>

definition SECTION_LOG_FILES :: "(string \<times> string) list" where
  "SECTION_LOG_FILES =
     [(''System Health Check'', ''system_health_check.log''),
      (''Disk Cleanup'', ''disk_cleanup.log''),
      (''Defragment and Optimize Drives'', ''defragment.log'')]"

definition COMMAND_LOG_FILES :: "(string \<times> string) list" where
  "COMMAND_LOG_FILES =
     [(''checkhealth'', ''checkhealth.log''),
      (''scanhealth'', ''scanhealth.log''),
      (''Restorehealth'', ''Restorehealth.log''),
      (''sfc_scannow'', ''sfc_scannow.log''),
      (''AnalyzeComponentStore'', ''AnalyzeComponentStore.log''),
      (''StartComponentCleanup'', ''StartComponentCleanup.log'')]"

definition handlers_of :: "toolkit \<Rightarrow> string \<Rightarrow> string list" where
  "handlers_of s name = (case map_of (handlers s) name of None \<Rightarrow> [] | Some hs \<Rightarrow> hs)"

text \<open>Opening a file for appending creates it when it is missing and keeps what it holds.\<close>

definition open_append :: "string \<Rightarrow> (string \<times> log_line list) list \<Rightarrow> (string \<times> log_line list) list" where
  "open_append f d = (case map_of d f of None \<Rightarrow> d @ [(f, [])] | Some ls \<Rightarrow> d)"

text \<open>A handler writes through the stream it holds open; on the target platform an open
  file cannot be removed, so the file is there (otherwise the line is lost).\<close>

definition write_line :: "log_line \<Rightarrow> string \<Rightarrow> (string \<times> log_line list) list \<Rightarrow> (string \<times> log_line list) list" where
  "write_line l f d = (case map_of d f of None \<Rightarrow> d | Some ls \<Rightarrow> AList.update f (ls @ [l]) d)"

text \<open>\<open>get_logger(name, log_file)\<close>: a \<open>FileHandler\<close> is added only to a logger that has
  none. The logger and the handler both get the level \<open>INFO\<close>.\<close>

definition get_logger :: "string \<Rightarrow> string \<Rightarrow> toolkit \<Rightarrow> toolkit" where
  "get_logger name log_file s =
     (if handlers_of s name = [] then
        s\<lparr>handlers := AList.update name [log_file] (handlers s),
          log_dir := open_append log_file (log_dir s)\<rparr>
      else s)"

text \<open>\<open>logger.debug/info/warning/error(msg)\<close>: dropped below \<open>INFO\<close>, else one line to
  every attached handler's file.\<close>

definition logger_log :: "string \<Rightarrow> level \<Rightarrow> string \<Rightarrow> toolkit \<Rightarrow> toolkit" where
  "logger_log name lvl msg s =
     (if levelno lvl < levelno INFO then s
      else s\<lparr>log_dir := fold (write_line (lvl, msg)) (handlers_of s name) (log_dir s)\<rparr>)"

definition section_logger_name :: "string \<Rightarrow> string" where
  "section_logger_name section_label =
     (if section_label = ''Defragment and Optimize Drives'' then ''defragment''
      else replace_char CHR '' '' CHR ''_'' (lower section_label))"

definition command_logger_name :: "string \<Rightarrow> string" where
  "command_logger_name command = replace_char CHR ''/'' CHR ''_'' (lower command)"

text \<open>\<open>self.loggers[logger_name] = get_logger(logger_name, log_file)\<close>\<close>

definition store_logger :: "string \<Rightarrow> string \<Rightarrow> toolkit \<Rightarrow> toolkit" where
  "store_logger logger_name log_file s =
     (let s1 = get_logger logger_name log_file s
      in s1\<lparr>loggers := AList.update logger_name logger_name (loggers s1)\<rparr>)"

definition initialize_loggers :: "toolkit \<Rightarrow> toolkit" where
  "initialize_loggers s =
     (let s0 = s\<lparr>loggers := []\<rparr>;
          s1 = fold (\<lambda>(section_label, log_file). store_logger (section_logger_name section_label) log_file)
                 SECTION_LOG_FILES s0;
          s2 = fold (\<lambda>(command, log_file). store_logger (command_logger_name command) log_file)
                 COMMAND_LOG_FILES s1
      in store_logger ''error_logger'' ''error.log'' s2)"

subsection \<open>Clearing the logs\<close>

definition lookup_logger :: "toolkit \<Rightarrow> string \<Rightarrow> exn + string" where
  "lookup_logger s key = (case map_of (loggers s) key of None \<Rightarrow> Inl (KeyError key) | Some lg \<Rightarrow> Inr lg)"

text \<open>A loop whose body may raise: the first exception ends it.\<close>

fun for_each :: "('a \<Rightarrow> toolkit \<Rightarrow> outcome \<times> toolkit) \<Rightarrow> 'a list \<Rightarrow> toolkit \<Rightarrow> outcome \<times> toolkit" where
  "for_each body [] s = (Returned, s)"
| "for_each body (x # xs) s =
     (case body x s of (Returned, s1) \<Rightarrow> for_each body xs s1 | (Raised ex, s1) \<Rightarrow> (Raised ex, s1))"

text \<open>Step 1 of \<open>clear_all_logs\<close>, for one item of \<open>self.loggers\<close>: every handler of the logger
  is a \<open>FileHandler\<close>; each is closed, then each is removed and the removal reported at
  level \<open>DEBUG\<close> to the error logger. A handler that is closed and removed no longer holds
  its file open.\<close>

fun remove_handlers :: "string \<Rightarrow> string \<Rightarrow> string list \<Rightarrow> toolkit \<Rightarrow> outcome \<times> toolkit" where
  "remove_handlers logger_name logger [] s = (Returned, s)"
| "remove_handlers logger_name logger (h # hs) s =
     (let s1 = s\<lparr>handlers := AList.update logger (remove1 h (handlers_of s logger)) (handlers s)\<rparr>
      in case lookup_logger s1 ''error_logger'' of
           Inl ex \<Rightarrow> (Raised ex, s1)
         | Inr err \<Rightarrow>
             remove_handlers logger_name logger hs
               (logger_log err DEBUG
                  (''Removed handler <FileHandler '' @ h @ '' (INFO)> from logger '' @ quote @ logger_name @ quote)
                  s1))"

definition close_file_handlers :: "string \<times> string \<Rightarrow> toolkit \<Rightarrow> outcome \<times> toolkit" where
  "close_file_handlers = (\<lambda>(logger_name, logger) s.
     remove_handlers logger_name logger (handlers_of s logger) s)"

text \<open>A file is held open by the handlers still attached to some logger. On the target
  platform \<open>os.remove\<close> of an open file raises \<open>PermissionError\<close> (sharing violation).\<close>

definition is_open :: "toolkit \<Rightarrow> string \<Rightarrow> bool" where
  "is_open s f = (f \<in> set (concat (map snd (handlers s))))"

definition sharing_violation :: string where
  "sharing_violation =
     ''[WinError 32] The process cannot access the file because it is being used by another process''"

text \<open>Step 2, for one name of \<open>os.listdir(LOG_DIR)\<close>. The lookup of the error logger inside
  the \<open>try\<close> would be caught by \<open>except Exception\<close>, whose own lookup raises the same
  \<open>KeyError\<close> again.\<close>

definition remove_log_file :: "string \<Rightarrow> toolkit \<Rightarrow> outcome \<times> toolkit" where
  "remove_log_file log_file s =
     (if map_of (log_dir s) log_file = None then (Returned, s)
      else if is_open s log_file then
        (case lookup_logger s ''error_logger'' of
           Inl ex \<Rightarrow> (Raised ex, s)
         | Inr err \<Rightarrow>
             (Returned,
              logger_log err ERROR (''Error clearing log file '' @ log_file @ '': '' @ sharing_violation) s))
      else
        (let s1 = s\<lparr>log_dir := AList.delete log_file (log_dir s)\<rparr>
         in case lookup_logger s1 ''error_logger'' of
              Inl ex \<Rightarrow> (Raised ex, s1)
            | Inr err \<Rightarrow> (Returned, logger_log err INFO (''Cleared log file: '' @ log_file) s1)))"

text \<open>\<open>messagebox.showinfo\<close> and \<open>messagebox.showerror\<close>: a dialog with a title and a text.\<close>

definition messagebox :: "string \<Rightarrow> string \<Rightarrow> toolkit \<Rightarrow> toolkit" where
  "messagebox title message s = s\<lparr>dialogs := dialogs s @ [(title, message)]\<rparr>"

definition clear_all_logs :: "toolkit \<Rightarrow> outcome \<times> toolkit" where
  "clear_all_logs s =
     (case for_each close_file_handlers (loggers s) s of
        (Raised ex, s1) \<Rightarrow> (Raised ex, s1)
      | (Returned, s1) \<Rightarrow>
          (case for_each remove_log_file (map fst (log_dir s1)) s1 of
             (Raised ex, s2) \<Rightarrow> (Raised ex, s2)
           | (Returned, s2) \<Rightarrow>
               (Returned,
                messagebox ''Logs Cleared'' ''All log files have been cleared.'' (initialize_loggers s2))))"

subsection \<open>Widgets and the queue\<close>

text \<open>Each direct access to a widget is recorded with the thread performing it.\<close>

definition clear_info_panel :: "thread \<Rightarrow> panel \<Rightarrow> toolkit \<Rightarrow> toolkit" where
  "clear_info_panel t p s =
     s\<lparr>panel_text := (panel_text s)(p := []), widget_ops := widget_ops s @ [(t, PanelDelete p)]\<rparr>"

definition update_info_panel :: "thread \<Rightarrow> panel \<Rightarrow> string \<Rightarrow> toolkit \<Rightarrow> toolkit" where
  "update_info_panel t p message s =
     s\<lparr>panel_text := (panel_text s)(p := panel_text s p @ message @ newline @ newline),
       widget_ops := widget_ops s @ [(t, PanelInsert p (message @ newline @ newline))]\<rparr>"

definition set_value :: "thread \<Rightarrow> bar \<Rightarrow> rat \<Rightarrow> toolkit \<Rightarrow> toolkit" where
  "set_value t b v s =
     s\<lparr>bar_value := (bar_value s)(b := v), widget_ops := widget_ops s @ [(t, BarValue b v)]\<rparr>"

definition set_maximum :: "thread \<Rightarrow> bar \<Rightarrow> rat \<Rightarrow> toolkit \<Rightarrow> toolkit" where
  "set_maximum t b v s =
     s\<lparr>bar_maximum := (bar_maximum s)(b := v), widget_ops := widget_ops s @ [(t, BarMaximum b v)]\<rparr>"

definition thread_safe_update_info_panel :: "panel \<Rightarrow> string \<Rightarrow> toolkit \<Rightarrow> toolkit" where
  "thread_safe_update_info_panel p message s =
     s\<lparr>gui_queue := gui_queue s @ [Call_update_info_panel p message]\<rparr>"

text \<open>\<open>self.gui_queue.put((self.reset_progress_bar_with_delay, (progress, delay)))\<close>\<close>

definition put_reset_progress_bar :: "bar \<Rightarrow> nat \<Rightarrow> toolkit \<Rightarrow> toolkit" where
  "put_reset_progress_bar b delay s =
     s\<lparr>gui_queue := gui_queue s @ [Call_reset_progress_bar_with_delay b delay]\<rparr>"

definition reset_progress_bar_with_delay :: "bar \<Rightarrow> nat \<Rightarrow> toolkit \<Rightarrow> toolkit" where
  "reset_progress_bar_with_delay b delay s =
     s\<lparr>after_calls := after_calls s @ [(delay, Cb_reset_value b)]\<rparr>"

text \<open>\<open>func(*args)\<close> for an item taken from the queue, on the thread that took it.\<close>

fun apply_call :: "thread \<Rightarrow> gui_call \<Rightarrow> toolkit \<Rightarrow> toolkit" where
  "apply_call t (Call_update_info_panel p message) s = update_info_panel t p message s"
| "apply_call t (Call_reset_progress_bar_with_delay b delay) s = reset_progress_bar_with_delay b delay s"

text \<open>\<open>while not self.gui_queue.empty(): func, args = self.gui_queue.get(); func(*args)\<close>\<close>

function drain_gui_queue :: "thread \<Rightarrow> toolkit \<Rightarrow> toolkit" where
  "drain_gui_queue t s =
     (case gui_queue s of
        [] \<Rightarrow> s
      | c # q \<Rightarrow> drain_gui_queue t (apply_call t c (s\<lparr>gui_queue := q\<rparr>)))"
  by pat_completeness auto
termination
proof (relation "measure (\<lambda>(t, s). length (gui_queue s))")
  show "wf (measure (\<lambda>(t, s). length (gui_queue s)))"
    by simp
next
  fix t :: thread and s :: toolkit and c q
  assume "gui_queue s = c # q"
  then show "((t, apply_call t c (s\<lparr>gui_queue := q\<rparr>)), (t, s)) \<in> measure (\<lambda>(t, s). length (gui_queue s))"
    by (cases c) (simp_all add: update_info_panel_def reset_progress_bar_with_delay_def)
qed

declare drain_gui_queue.simps [simp del]

text \<open>\<open>process_gui_queue\<close> runs as a \<open>root.after\<close> callback, that is on the thread of the
  Tk main loop, and re-arms itself after 100 ms.\<close>

definition process_gui_queue :: "toolkit \<Rightarrow> toolkit" where
  "process_gui_queue s =
     (let s1 = drain_gui_queue UIThread s
      in s1\<lparr>after_calls := after_calls s1 @ [(100, Cb_process_gui_queue)]\<rparr>)"

text \<open>A timer that fires runs its callback on the main loop's thread.\<close>

fun run_callback :: "callback \<Rightarrow> toolkit \<Rightarrow> toolkit" where
  "run_callback Cb_process_gui_queue s = process_gui_queue s"
| "run_callback (Cb_reset_value b) s = set_value UIThread b 0 s"

subsection \<open>The privilege gate\<close>

definition is_admin :: "env \<Rightarrow> bool" where
  "is_admin e = (case admin_probe e of IsUserAnAdmin b \<Rightarrow> b | ProbeRaises msg \<Rightarrow> False)"

definition admin_message :: string where
  "admin_message =
     ''Admin privileges are required to perform this operation.'' @ newline @
     ''Please restart the program as an administrator.''"

definition ensure_admin :: "env \<Rightarrow> toolkit \<Rightarrow> (exn + bool) \<times> toolkit" where
  "ensure_admin e s =
     (if \<not> is_admin e then
        (case lookup_logger s ''error_logger'' of
           Inl ex \<Rightarrow> (Inl ex, s)
         | Inr err \<Rightarrow>
             (Inr False,
              thread_safe_update_info_panel system_health_check_info admin_message
                (logger_log err ERROR ''Admin privileges are required to perform this operation.'' s)))
      else (Inr True, s))"

subsection \<open>Defragment and optimize drives\<close>

text \<open>The inner loop \<open>for step in range(steps)\<close>: the poll of iteration \<open>step\<close> finds the
  process alive exactly when \<open>step < alive\<close>.\<close>

fun poll_steps :: "thread \<Rightarrow> string \<Rightarrow> nat \<Rightarrow> string \<Rightarrow> nat \<Rightarrow> nat \<Rightarrow> nat list \<Rightarrow> toolkit \<Rightarrow> toolkit" where
  "poll_steps t logger i drive alive steps [] s = s"
| "poll_steps t logger i drive alive steps (step # rest) s =
     (if \<not> step < alive then s
      else
        (let s1 = set_value t defragment_and_optimize_drives_progress (of_nat ((i * 100) + (step + 1))) s;
             message = ''Defragmenting '' @ drive @ '': Step '' @ str_nat (step + 1) @ ''/'' @ str_nat steps;
             s2 = thread_safe_update_info_panel defragment_and_optimize_drives_info message s1;
             s3 = logger_log logger INFO message s2
         in poll_steps t logger i drive alive steps rest s3))"

text \<open>One iteration of \<open>for i, drive in enumerate(drives)\<close>. \<open>CalledProcessError\<close> is caught
  and reported; any other exception leaves the operation.\<close>

definition optimize_drive :: "thread \<Rightarrow> env \<Rightarrow> string \<Rightarrow> nat \<times> string \<Rightarrow> toolkit \<Rightarrow> outcome \<times> toolkit" where
  "optimize_drive t e logger = (\<lambda>(i, drive) s.
     (let command = ''defrag '' @ drive @ '' /OPTIMIZE'';
          s1 = s\<lparr>launched := launched s @ [command]\<rparr>
      in case Popen e command of
           Process alive returncode stderr \<Rightarrow>
             (let steps = 100;
                  s2 = poll_steps t logger i drive alive steps [0..<steps] s1
              in if returncode = 0 then
                   (let success_message = ''Optimized drive: '' @ drive
                    in (Returned,
                        logger_log logger INFO success_message
                          (thread_safe_update_info_panel defragment_and_optimize_drives_info success_message s2)))
                 else
                   (let error_message = ''Failed to optimize drive '' @ drive @ '': '' @ stderr
                    in (Returned,
                        logger_log logger ERROR error_message
                          (thread_safe_update_info_panel defragment_and_optimize_drives_info error_message s2))))
         | PopenCalledProcessError msg \<Rightarrow>
             (let error_message = ''Failed to optimize drive '' @ drive @ '': '' @ msg
              in (Returned,
                  logger_log logger ERROR error_message
                    (thread_safe_update_info_panel defragment_and_optimize_drives_info error_message s1)))
         | PopenRaises msg \<Rightarrow> (Raised (OtherException msg), s1)))"

definition drives :: "string list" where
  "drives = [''C:'', ''D:'']"

definition defragment_drives :: "thread \<Rightarrow> env \<Rightarrow> toolkit \<Rightarrow> outcome \<times> toolkit" where
  "defragment_drives t e s =
     (case lookup_logger s ''defragment'' of
        Inl ex \<Rightarrow> (Returned, messagebox ''Logger Error'' ''Defragment logger not found.'' s)
      | Inr logger \<Rightarrow>
          (let info_panel = defragment_and_optimize_drives_info;
               s1 = clear_info_panel t info_panel s;
               s2 = thread_safe_update_info_panel info_panel ''Initialized Defragment and Optimize Drives'' s1;
               progress = defragment_and_optimize_drives_progress;
               s3 = set_maximum t progress (of_nat (length drives * 100)) s2;
               s4 = logger_log logger INFO ''Starting Defragmentation and Optimization'' s3
           in case for_each (optimize_drive t e logger) (enumerate 0 drives) s4 of
                (Raised ex, s5) \<Rightarrow> (Raised ex, s5)
              | (Returned, s5) \<Rightarrow>
                  (let s6 = logger_log logger INFO ''Defragmentation and Optimization Completed'' s5;
                       s7 = thread_safe_update_info_panel info_panel ''Defragmentation and optimization completed.'' s6;
                       s8 = set_value t progress 100 s7
                   in (Returned, put_reset_progress_bar progress 1000 s8))))"

subsection \<open>Disk cleanup\<close>

record tallies =
  deleted_files :: "string list"
  in_use_files :: "string list"
  permission_denied_files :: "string list"

definition EACCES :: int where
  "EACCES = 13"

text \<open>\<open>Path(root_dir) / name\<close>, as text.\<close>

definition join_path :: "string \<Rightarrow> string \<Rightarrow> string" where
  "join_path root_dir name = root_dir @ backslash @ name"

text \<open>The \<open>try\<close> block around \<open>unlink\<close> and around \<open>rmdir\<close>: the two copies in the source
  differ only in the word of the success message.\<close>

definition try_delete :: "string \<Rightarrow> string \<Rightarrow> string \<Rightarrow> del_result \<Rightarrow> tallies \<times> toolkit \<Rightarrow> tallies \<times> toolkit" where
  "try_delete logger what path r = (\<lambda>(c, s).
     (case r of
        Deletes \<Rightarrow>
          (c\<lparr>deleted_files := deleted_files c @ [path]\<rparr>,
           logger_log logger INFO (''Deleted '' @ what @ '': '' @ path) s)
      | PermissionError errno winerror \<Rightarrow>
          (if errno = EACCES \<and> winerror = 32 then
             (c\<lparr>in_use_files := in_use_files c @ [path]\<rparr>,
              logger_log logger WARNING (''In use by another program: '' @ path)
                (thread_safe_update_info_panel disk_cleanup_info
                   (''In use by another program: '' @ path @ newline) s))
           else
             (c\<lparr>permission_denied_files := permission_denied_files c @ [path]\<rparr>,
              logger_log logger ERROR (''Permission denied for '' @ path)
                (thread_safe_update_info_panel disk_cleanup_info
                   (''Permission denied for '' @ path @ newline) s)))
      | OSError msg \<Rightarrow>
          (c,
           logger_log logger ERROR (''Error deleting '' @ path @ '': '' @ msg)
             (thread_safe_update_info_panel disk_cleanup_info
                (''Error deleting '' @ path @ '': '' @ msg @ newline) s))))"

text \<open>\<open>for name in files\<close>: every file of the directory is unlinked; the ones that were
  deleted are gone from the directory.\<close>

fun unlink_files :: "string \<Rightarrow> string \<Rightarrow> node list \<Rightarrow> tallies \<times> toolkit \<Rightarrow> node list \<times> (tallies \<times> toolkit)" where
  "unlink_files logger root_dir [] acc = ([], acc)"
| "unlink_files logger root_dir (File name r # ns) acc =
     (let acc1 = try_delete logger ''file'' (join_path root_dir name) r acc;
          (ns', acc2) = unlink_files logger root_dir ns acc1
      in (if r = Deletes then ns' else File name r # ns', acc2))"
| "unlink_files logger root_dir (Dir name r cs # ns) acc =
     (let (ns', acc1) = unlink_files logger root_dir ns acc
      in (Dir name r cs # ns', acc1))"

definition not_empty :: string where
  "not_empty = ''[WinError 145] The directory is not empty''"

text \<open>\<open>for name in dirs\<close>: \<open>rmdir\<close> of a directory that still has entries raises an
  \<open>OSError\<close> that is not a \<open>PermissionError\<close>.\<close>

fun rmdir_dirs :: "string \<Rightarrow> string \<Rightarrow> node list \<Rightarrow> tallies \<times> toolkit \<Rightarrow> node list \<times> (tallies \<times> toolkit)" where
  "rmdir_dirs logger root_dir [] acc = ([], acc)"
| "rmdir_dirs logger root_dir (File name r # ns) acc =
     (let (ns', acc1) = rmdir_dirs logger root_dir ns acc
      in (File name r # ns', acc1))"
| "rmdir_dirs logger root_dir (Dir name r cs # ns) acc =
     (let r' = (if cs = [] then r else OSError not_empty);
          acc1 = try_delete logger ''directory'' (join_path root_dir name) r' acc;
          (ns', acc2) = rmdir_dirs logger root_dir ns acc1
      in (if r' = Deletes then ns' else Dir name r cs # ns', acc2))"

text \<open>\<open>os.walk(path, topdown=False)\<close> with the loop body: the sub-directories are walked
  first, in order, then the directory's own triple \<open>(root_dir, dirs, files)\<close> is handled.
  The result is what is left of the directory.\<close>

fun walk :: "string \<Rightarrow> string \<Rightarrow> node list \<Rightarrow> tallies \<times> toolkit \<Rightarrow> node list \<times> (tallies \<times> toolkit)"
and walk_dirs :: "string \<Rightarrow> string \<Rightarrow> node list \<Rightarrow> tallies \<times> toolkit \<Rightarrow> node list \<times> (tallies \<times> toolkit)" where
  "walk logger root_dir ns acc =
     (let (ns1, acc1) = walk_dirs logger root_dir ns acc;
          (ns2, acc2) = unlink_files logger root_dir ns1 acc1
      in rmdir_dirs logger root_dir ns2 acc2)"
| "walk_dirs logger root_dir [] acc = ([], acc)"
| "walk_dirs logger root_dir (File name r # ns) acc =
     (let (ns', acc1) = walk_dirs logger root_dir ns acc
      in (File name r # ns', acc1))"
| "walk_dirs logger root_dir (Dir name r cs # ns) acc =
     (let (cs', acc1) = walk logger (join_path root_dir name) cs acc;
          (ns', acc2) = walk_dirs logger root_dir ns acc1
      in (Dir name r cs' # ns', acc2))"

definition cleanup_paths :: "env \<Rightarrow> string option list" where
  "cleanup_paths e =
     [getenv_TEMP e,
      Some (home_dir e @ backslash @ ''AppData'' @ backslash @ ''Local'' @ backslash @ ''Temp''),
      Some (home_dir e @ backslash @ ''AppData'' @ backslash @ ''Local'' @ backslash @ ''Microsoft''
            @ backslash @ ''Windows'' @ backslash @ ''History'')]"

definition str_path :: "string option \<Rightarrow> string" where
  "str_path path = (case path of None \<Rightarrow> ''None'' | Some p \<Rightarrow> p)"

text \<open>One iteration of \<open>for path in cleanup_paths\<close>.\<close>

definition clean_path :: "string \<Rightarrow> string option \<Rightarrow> tallies \<times> toolkit \<Rightarrow> tallies \<times> toolkit" where
  "clean_path logger path = (\<lambda>(c, s).
     (case (case path of None \<Rightarrow> None | Some p \<Rightarrow> if p = [] then None else map_of (filesystem s) p) of
        Some ns \<Rightarrow>
          (let (ns', (c', s')) = walk logger (str_path path) ns (c, s)
           in (c', s'\<lparr>filesystem := AList.update (str_path path) ns' (filesystem s')\<rparr>))
      | None \<Rightarrow>
          (c,
           logger_log logger WARNING (''Path not found or invalid: '' @ str_path path)
             (thread_safe_update_info_panel disk_cleanup_info
                (''Path not found or invalid: '' @ str_path path @ newline) s))))"

definition completion_message :: "tallies \<Rightarrow> string" where
  "completion_message c =
     ''Disk cleanup completed'' @ newline @
     ''Deleted: '' @ str_nat (length (deleted_files c)) @ newline @
     ''In Use: '' @ str_nat (length (in_use_files c)) @ newline @
     ''Permission Denied: '' @ str_nat (length (permission_denied_files c))"

definition disk_cleanup :: "thread \<Rightarrow> env \<Rightarrow> toolkit \<Rightarrow> outcome \<times> toolkit" where
  "disk_cleanup t e s =
     (case ensure_admin e s of
        (Inl ex, s0) \<Rightarrow> (Raised ex, s0)
      | (Inr False, s0) \<Rightarrow> (Returned, s0)
      | (Inr True, s0) \<Rightarrow>
          (case lookup_logger s0 ''disk_cleanup'' of
             Inl ex \<Rightarrow> (Raised ex, s0)
           | Inr logger \<Rightarrow>
               (let c0 = \<lparr>deleted_files = [], in_use_files = [], permission_denied_files = []\<rparr>;
                    s1 = clear_info_panel t disk_cleanup_info s0;
                    s2 = thread_safe_update_info_panel disk_cleanup_info (''Starting Disk Cleanup...'' @ newline) s1;
                    (c, s3) = fold (clean_path logger) (cleanup_paths e) (c0, s2);
                    s4 = logger_log logger INFO ''Disk Cleanup Completed'' s3;
                    s5 = logger_log logger INFO (''Deleted Files: '' @ str_nat (length (deleted_files c))) s4;
                    s6 = logger_log logger INFO (''In Use Files: '' @ str_nat (length (in_use_files c))) s5;
                    s7 = logger_log logger INFO
                           (''Permission Denied Files: '' @ str_nat (length (permission_denied_files c))) s6;
                    s8 = thread_safe_update_info_panel disk_cleanup_info (completion_message c) s7;
                    progress = disk_cleanup_progress;
                    s9 = set_value t progress 100 s8
                in (Returned, put_reset_progress_bar progress 1000 s9))))"

subsection \<open>System health check\<close>

definition commands :: "(string \<times> string) list" where
  "commands =
     [(''checkhealth'', ''Dism.exe /online /Cleanup-Image /checkhealth''),
      (''scanhealth'', ''Dism.exe /online /Cleanup-Image /scanhealth''),
      (''Restorehealth'', ''Dism.exe /online /Cleanup-Image /Restorehealth''),
      (''sfc_scannow'', ''sfc /scannow''),
      (''AnalyzeComponentStore'', ''Dism.exe /Online /Cleanup-Image /AnalyzeComponentStore''),
      (''StartComponentCleanup'', ''Dism.exe /Online /Cleanup-Image /StartComponentCleanup'')]"

text \<open>The dictionary display \<open>loggers = {...}\<close> of \<open>start_health_check\<close>: each entry pairs a
  command name with the key it looks up in \<open>self.loggers\<close>.\<close>

definition command_logger_keys :: "(string \<times> string) list" where
  "command_logger_keys =
     [(''checkhealth'', ''checkhealth''),
      (''scanhealth'', ''scanhealth''),
      (''Restorehealth'', ''restorehealth''),
      (''sfc_scannow'', ''sfc_scannow''),
      (''AnalyzeComponentStore'', ''analyzeComponentStore''),
      (''StartComponentCleanup'', ''StartComponentCleanup'')]"

text \<open>The entries are evaluated in order; the first missing key raises \<open>KeyError\<close>.\<close>

fun lookup_all :: "toolkit \<Rightarrow> (string \<times> string) list \<Rightarrow> exn + (string \<times> string) list" where
  "lookup_all s [] = Inr []"
| "lookup_all s ((command_name, key) # rest) =
     (case lookup_logger s key of
        Inl ex \<Rightarrow> Inl ex
      | Inr lg \<Rightarrow> (case lookup_all s rest of Inl ex \<Rightarrow> Inl ex | Inr d \<Rightarrow> Inr ((command_name, lg) # d)))"

text \<open>The \<open>finally\<close> clause of the loop body.\<close>

definition advance_progress :: "thread \<Rightarrow> rat \<Rightarrow> toolkit \<Rightarrow> toolkit" where
  "advance_progress t progress_increment s =
     set_value t system_health_check_progress
       (bar_value s system_health_check_progress + progress_increment) s"

text \<open>The loop \<open>for i, (command_name, command) in enumerate(commands.items(), start=1)\<close>
  over the items still to run; \<open>n\<close> is \<open>len(commands)\<close> and \<open>lgs\<close> the local dictionary
  \<open>loggers\<close>. A \<open>break\<close> ends the loop with \<open>Returned\<close>.\<close>

fun run_commands ::
  "thread \<Rightarrow> env \<Rightarrow> (string \<times> string) list \<Rightarrow> nat \<Rightarrow> rat \<Rightarrow> (nat \<times> string \<times> string) list \<Rightarrow> toolkit
     \<Rightarrow> outcome \<times> toolkit" where
  "run_commands t e lgs n inc [] s = (Returned, s)"
| "run_commands t e lgs n inc ((i, command_name, command) # rest) s =
     (let s1 = thread_safe_update_info_panel system_health_check_info
                 (''Executing command '' @ str_nat i @ ''/'' @ str_nat n @ '': '' @ command) s
      in case lookup_logger s1 ''error_logger'' of
           Inl ex \<Rightarrow> (Raised ex, s1)
         | Inr err \<Rightarrow>
             (let logger = (case map_of lgs command_name of None \<Rightarrow> err | Some lg \<Rightarrow> lg);
                  s2 = s1\<lparr>launched := launched s1 @ [command]\<rparr>
              in case subprocess_run e command of
                   CompletedProcess returncode out \<Rightarrow>
                     (let s3 = fold (\<lambda>line. logger_log logger INFO (strip line)) out s2;
                          s4 = (if returncode = 0 then
                                  (let success_message = ''Command '' @ str_nat i @ '' completed successfully.''
                                   in logger_log logger INFO success_message
                                        (thread_safe_update_info_panel system_health_check_info success_message s3))
                                else
                                  (let error_message =
                                         ''Command '' @ str_nat i @ '' failed with error code: '' @ str_int returncode
                                   in logger_log logger ERROR error_message
                                        (thread_safe_update_info_panel system_health_check_info error_message s3)))
                      in run_commands t e lgs n inc rest (advance_progress t inc s4))
                 | TimeoutExpired \<Rightarrow>
                     (let error_message = ''Command '' @ str_nat i @ '' timed out.''
                      in (Returned,
                          advance_progress t inc
                            (logger_log logger ERROR error_message
                               (thread_safe_update_info_panel system_health_check_info error_message s2))))
                 | RunRaises msg \<Rightarrow>
                     (let error_message = ''Error executing command '' @ str_nat i @ '': '' @ msg
                      in (Returned,
                          advance_progress t inc
                            (logger_log logger ERROR error_message
                               (thread_safe_update_info_panel system_health_check_info error_message s2))))))"

text \<open>\<open>start_health_check\<close> from \<open>progress_increment = 100 / len(commands)\<close> to its end, given the
  local dictionary \<open>loggers\<close>.\<close>

definition health_check_body :: "thread \<Rightarrow> env \<Rightarrow> (string \<times> string) list \<Rightarrow> toolkit \<Rightarrow> outcome \<times> toolkit" where
  "health_check_body t e lgs s =
     (let progress_increment = 100 / of_nat (length commands);
          progress = system_health_check_progress;
          s1 = clear_info_panel t system_health_check_info s;
          s2 = thread_safe_update_info_panel system_health_check_info ''Initializing System Health Check...'' s1
      in case run_commands t e lgs (length commands) progress_increment (enumerate 1 commands) s2 of
           (Raised ex, s3) \<Rightarrow> (Raised ex, s3)
         | (Returned, s3) \<Rightarrow>
             (let s4 = thread_safe_update_info_panel system_health_check_info ''System Health Check completed.'' s3;
                  s5 = set_value t progress 100 s4
              in (Returned, put_reset_progress_bar progress 1000 s5)))"

definition start_health_check :: "thread \<Rightarrow> env \<Rightarrow> toolkit \<Rightarrow> outcome \<times> toolkit" where
  "start_health_check t e s =
     (case ensure_admin e s of
        (Inl ex, s0) \<Rightarrow> (Raised ex, s0)
      | (Inr False, s0) \<Rightarrow> (Returned, s0)
      | (Inr True, s0) \<Rightarrow>
          (case lookup_all s0 command_logger_keys of
             Inl ex \<Rightarrow> (Raised ex, s0)
           | Inr lgs \<Rightarrow> health_check_body t e lgs s0))"

subsection \<open>Start-up and the buttons\<close>

text \<open>The part of \<open>__init__\<close> that touches the modelled state: the queue with its first
  timer, the loggers, and the widgets of \<open>create_section\<close> (a Tk progress bar starts at
  value 0 with maximum 100, an info panel empty).\<close>

definition blank :: toolkit where
  "blank =
     \<lparr>loggers = [], handlers = [], log_dir = [], gui_queue = [], after_calls = [],
      panel_text = (\<lambda>p. []), bar_value = (\<lambda>b. 0), bar_maximum = (\<lambda>b. 100),
      widget_ops = [], launched = [], filesystem = [], dialogs = []\<rparr>"

definition init :: "(string \<times> node list) list \<Rightarrow> toolkit" where
  "init fs =
     initialize_loggers (blank\<lparr>after_calls := [(100, Cb_process_gui_queue)], filesystem := fs\<rparr>)"

text \<open>A section's button starts its command on a new thread:
  \<open>command=lambda: threading.Thread(target=command).start()\<close>.\<close>

definition button_press :: "(thread \<Rightarrow> env \<Rightarrow> toolkit \<Rightarrow> outcome \<times> toolkit) \<Rightarrow> env \<Rightarrow> toolkit \<Rightarrow> outcome \<times> toolkit" where
  "button_press command e s = command WorkerThread e s"

text \<open>A toolkit whose loggers are the ones \<open>initialize_loggers\<close> sets up at start-up, each
  with its handler attached and its file present. \<open>__init__\<close> and \<open>clear_all_logs\<close> both end
  in such a state, and no operation changes the loggers or the handlers.\<close>

definition initialized :: "toolkit \<Rightarrow> bool" where
  "initialized s =
     (loggers s = loggers (init []) \<and> handlers s = handlers (init []) \<and>
      list_all (\<lambda>f. map_of (log_dir s) f \<noteq> None) (map fst (log_dir (init []))))"

subsection \<open>Example environments\<close>

text \<open>A session without elevation.\<close>

definition denied_env :: env where
  "denied_env =
     \<lparr>admin_probe = IsUserAnAdmin False, Popen = (\<lambda>c. Process 0 0 []),
      subprocess_run = (\<lambda>c. CompletedProcess 0 []), getenv_TEMP = None, home_dir = ''C:''\<rparr>"

text \<open>A session without elevation in which every \<open>defrag\<close> process is found alive by three
  polls and then fails.\<close>

definition slow_env :: env where
  "slow_env =
     \<lparr>admin_probe = IsUserAnAdmin False, Popen = (\<lambda>c. Process 3 1 ''Access is denied.''),
      subprocess_run = (\<lambda>c. CompletedProcess 0 []), getenv_TEMP = None, home_dir = ''C:''\<rparr>"

text \<open>An elevated session in which every external process exits at once with code 0.\<close>

definition quick_env :: env where
  "quick_env =
     \<lparr>admin_probe = IsUserAnAdmin True, Popen = (\<lambda>c. Process 0 0 []),
      subprocess_run = (\<lambda>c. CompletedProcess 0 []), getenv_TEMP = None, home_dir = ''C:''\<rparr>"

text \<open>The dictionary \<open>loggers\<close> that \<open>start_health_check\<close> would hold if each key were spelt
  the way \<open>initialize_loggers\<close> stores it.\<close>

definition resolved_loggers :: "(string \<times> string) list" where
  "resolved_loggers = map (\<lambda>(command, log_file). (command, command_logger_name command)) COMMAND_LOG_FILES"


text \<open>An elevated session in which the fourth health-check command exits with code 1.\<close>

definition exit1_env :: env where
  "exit1_env =
     \<lparr>admin_probe = IsUserAnAdmin True, Popen = (\<lambda>c. Process 0 0 []),
      subprocess_run = (\<lambda>c. if c = ''sfc /scannow'' then CompletedProcess 1 [] else CompletedProcess 0 []),
      getenv_TEMP = None, home_dir = ''C:''\<rparr>"


definition denied :: "del_result \<Rightarrow> bool" where
  "denied r = (case r of PermissionError errno winerror \<Rightarrow> \<not> (errno = EACCES \<and> winerror = 32) | _ \<Rightarrow> False)"





text \<open>The part of a toolkit that the loggers read and write, on an otherwise blank toolkit.\<close>

definition logging_state :: "toolkit \<Rightarrow> toolkit" where
  "logging_state s = blank\<lparr>loggers := loggers s, handlers := handlers s, log_dir := log_dir s\<rparr>"

section \<open>Properties\<close>

subsection \<open>The state after start-up\<close>

lemma loggers_init:
  "loggers (init []) =
     [(''system_health_check'', ''system_health_check''), (''disk_cleanup'', ''disk_cleanup''),
      (''defragment'', ''defragment''), (''checkhealth'', ''checkhealth''),
      (''scanhealth'', ''scanhealth''), (''restorehealth'', ''restorehealth''),
      (''sfc_scannow'', ''sfc_scannow''), (''analyzecomponentstore'', ''analyzecomponentstore''),
      (''startcomponentcleanup'', ''startcomponentcleanup''), (''error_logger'', ''error_logger'')]"
  by code_simp

lemma handlers_init:
  "handlers (init []) =
     [(''system_health_check'', [''system_health_check.log'']), (''disk_cleanup'', [''disk_cleanup.log'']),
      (''defragment'', [''defragment.log'']), (''checkhealth'', [''checkhealth.log'']),
      (''scanhealth'', [''scanhealth.log'']), (''restorehealth'', [''Restorehealth.log'']),
      (''sfc_scannow'', [''sfc_scannow.log'']),
      (''analyzecomponentstore'', [''AnalyzeComponentStore.log'']),
      (''startcomponentcleanup'', [''StartComponentCleanup.log'']), (''error_logger'', [''error.log''])]"
  by code_simp

lemma log_dir_init:
  "log_dir (init []) =
     [(''system_health_check.log'', []), (''disk_cleanup.log'', []), (''defragment.log'', []),
      (''checkhealth.log'', []), (''scanhealth.log'', []), (''Restorehealth.log'', []),
      (''sfc_scannow.log'', []), (''AnalyzeComponentStore.log'', []),
      (''StartComponentCleanup.log'', []), (''error.log'', [])]"
  by code_simp

lemma initialized_init: "initialized (init [])"
  by code_simp

lemma initialized_error_logger:
  assumes "initialized s"
  shows "lookup_logger s ''error_logger'' = Inr ''error_logger''"
    and "handlers_of s ''error_logger'' = [''error.log'']"
    and "\<exists>old. map_of (log_dir s) ''error.log'' = Some old"
  using assms
  by (simp_all add: initialized_def loggers_init handlers_init log_dir_init lookup_logger_def
      handlers_of_def)

subsection \<open>The privilege gate\<close>

lemma ensure_admin_denied:
  assumes "initialized s" and "\<not> is_admin e" and "map_of (log_dir s) ''error.log'' = Some old"
  shows "ensure_admin e s =
           (Inr False,
            s\<lparr>log_dir := AList.update ''error.log''
                 (old @ [(ERROR, ''Admin privileges are required to perform this operation.'')]) (log_dir s),
              gui_queue := gui_queue s @ [Call_update_info_panel system_health_check_info admin_message]\<rparr>)"
  using assms
  by (simp add: ensure_admin_def initialized_error_logger logger_log_def write_line_def
      thread_safe_update_info_panel_def)

text \<open>
  Claim C1. When \<open>is_admin\<close> answers false, \<open>disk_cleanup\<close> and \<open>start_health_check\<close> both
  return at once. The state they leave differs from the one they found in two fields only:
  the file of the error logger has one more line, at level \<open>ERROR\<close>, and the queue has one
  more item, the message that asks for a restart as administrator. Nothing is deleted
  (\<open>filesystem\<close>), no command is launched (\<open>launched\<close>), no widget is touched and no timer
  is set.
\<close>

theorem privilege_denied_aborts:
  assumes "initialized s" and "\<not> is_admin e"
  shows "\<exists>old s'. map_of (log_dir s) ''error.log'' = Some old \<and>
           s' = s\<lparr>log_dir := AList.update ''error.log''
                     (old @ [(ERROR, ''Admin privileges are required to perform this operation.'')]) (log_dir s),
                   gui_queue := gui_queue s @ [Call_update_info_panel system_health_check_info admin_message]\<rparr> \<and>
           disk_cleanup t e s = (Returned, s') \<and>
           start_health_check t e s = (Returned, s') \<and>
           launched s' = launched s \<and> filesystem s' = filesystem s \<and>
           widget_ops s' = widget_ops s \<and> after_calls s' = after_calls s"
proof -
  from initialized_error_logger(3) [OF assms(1)]
  obtain old where old: "map_of (log_dir s) ''error.log'' = Some old" ..
  note ea = ensure_admin_denied [OF assms old]
  show ?thesis
    using old by (simp add: disk_cleanup_def start_health_check_def ea)
qed

theorem privilege_denied_aborts_witness:
  "initialized (init []) \<and> \<not> is_admin denied_env \<and>
   (\<exists>old s'. map_of (log_dir (init [])) ''error.log'' = Some old \<and>
      s' = (init [])\<lparr>log_dir := AList.update ''error.log''
                (old @ [(ERROR, ''Admin privileges are required to perform this operation.'')]) (log_dir (init [])),
              gui_queue := gui_queue (init []) @ [Call_update_info_panel system_health_check_info admin_message]\<rparr> \<and>
      disk_cleanup WorkerThread denied_env (init []) = (Returned, s') \<and>
      start_health_check WorkerThread denied_env (init []) = (Returned, s') \<and>
      launched s' = launched (init []) \<and> filesystem s' = filesystem (init []) \<and>
      widget_ops s' = widget_ops (init []) \<and> after_calls s' = after_calls (init []))"
proof -
  have h1: "initialized (init [])"
    by (rule initialized_init)
  have h2: "\<not> is_admin denied_env"
    by (simp add: is_admin_def denied_env_def)
  show ?thesis
    using h1 h2 privilege_denied_aborts [OF h1 h2, of WorkerThread] by simp
qed

subsection \<open>The queue and the panels\<close>

lemmas prims = logger_log_def thread_safe_update_info_panel_def set_value_def set_maximum_def
  clear_info_panel_def put_reset_progress_bar_def messagebox_def update_info_panel_def
  reset_progress_bar_with_delay_def

lemma apply_call_queue_update:
  "(apply_call t c s)\<lparr>gui_queue := q\<rparr> = apply_call t c (s\<lparr>gui_queue := q\<rparr>)"
  by (cases c) (simp_all add: prims)

lemma gui_queue_apply_call: "gui_queue (apply_call t c s) = gui_queue s"
  by (cases c) (simp_all add: prims)

text \<open>The loop of \<open>process_gui_queue\<close> applies the queued items in the order they were put.\<close>

lemma drain_fold:
  "drain_gui_queue t s = fold (apply_call t) (gui_queue s) (s\<lparr>gui_queue := []\<rparr>)"
proof (induction "gui_queue s" arbitrary: s)
  case Nil
  then show ?case
    by (simp add: drain_gui_queue.simps [of t s])
next
  case (Cons c q)
  have q: "q = gui_queue (apply_call t c (s\<lparr>gui_queue := q\<rparr>))"
    by (simp add: gui_queue_apply_call)
  have "drain_gui_queue t s = drain_gui_queue t (apply_call t c (s\<lparr>gui_queue := q\<rparr>))"
    using Cons.hyps(2) [symmetric] by (simp add: drain_gui_queue.simps [of t s])
  also have "\<dots> = fold (apply_call t) q ((apply_call t c (s\<lparr>gui_queue := q\<rparr>))\<lparr>gui_queue := []\<rparr>)"
    using Cons.hyps(1) [OF q] by (simp add: gui_queue_apply_call)
  also have "\<dots> = fold (apply_call t) (c # q) (s\<lparr>gui_queue := []\<rparr>)"
    by (simp add: apply_call_queue_update)
  finally show ?case
    using Cons.hyps(2) [symmetric] by simp
qed

lemma panel_text_fold_apply:
  "panel_text s = panel_text s' \<Longrightarrow>
   panel_text (fold (apply_call t) q s) = panel_text (fold (apply_call t) q s')"
proof (induction q arbitrary: s s')
  case Nil
  then show ?case by simp
next
  case (Cons c q)
  have "panel_text (apply_call t c s) = panel_text (apply_call t c s')"
    using Cons.prems by (cases c) (simp_all add: prims)
  from Cons.IH [OF this] show ?case
    by simp
qed

lemma panel_text_process_gui_queue:
  "panel_text (process_gui_queue s) = panel_text (fold (apply_call UIThread) (gui_queue s) s)"
proof -
  have "panel_text (process_gui_queue s) = panel_text (drain_gui_queue UIThread s)"
    by (simp add: process_gui_queue_def Let_def)
  also have "\<dots> = panel_text (fold (apply_call UIThread) (gui_queue s) (s\<lparr>gui_queue := []\<rparr>))"
    by (simp add: drain_fold)
  also have "\<dots> = panel_text (fold (apply_call UIThread) (gui_queue s) s)"
    by (rule panel_text_fold_apply) simp
  finally show ?thesis .
qed

text \<open>
  Claim C10. A denied run, of \<open>disk_cleanup\<close> as of \<open>start_health_check\<close>, puts exactly one
  item on the queue: the administrator message, addressed to the panel of the System Health
  Check section. The denied \<open>disk_cleanup\<close> itself changes no panel; once the main loop has
  processed the queue, the Disk Cleanup panel reads what it would read without the denied
  run, and the System Health Check panel reads the same with the message appended.
\<close>

theorem denial_shown_in_health_panel:
  assumes "initialized s" and "\<not> is_admin e"
  shows "gui_queue (snd (disk_cleanup t e s)) =
           gui_queue s @ [Call_update_info_panel system_health_check_info admin_message] \<and>
         gui_queue (snd (start_health_check t e s)) =
           gui_queue s @ [Call_update_info_panel system_health_check_info admin_message] \<and>
         panel_text (snd (disk_cleanup t e s)) = panel_text s \<and>
         panel_text (process_gui_queue (snd (disk_cleanup t e s))) disk_cleanup_info =
           panel_text (process_gui_queue s) disk_cleanup_info \<and>
         panel_text (process_gui_queue (snd (disk_cleanup t e s))) system_health_check_info =
           panel_text (process_gui_queue s) system_health_check_info @ admin_message @ newline @ newline"
proof -
  from initialized_error_logger(3) [OF assms(1)]
  obtain old where old: "map_of (log_dir s) ''error.log'' = Some old" ..
  note ea = ensure_admin_denied [OF assms old]
  define s1 where "s1 = snd (disk_cleanup t e s)"
  have s1: "s1 = s\<lparr>log_dir := AList.update ''error.log''
                 (old @ [(ERROR, ''Admin privileges are required to perform this operation.'')]) (log_dir s),
              gui_queue := gui_queue s @ [Call_update_info_panel system_health_check_info admin_message]\<rparr>"
    by (simp add: s1_def disk_cleanup_def ea)
  have s2: "snd (start_health_check t e s) = s1"
    by (simp add: s1 start_health_check_def ea)
  have "panel_text (fold (apply_call UIThread) (gui_queue s) s1) =
        panel_text (fold (apply_call UIThread) (gui_queue s) s)"
    by (rule panel_text_fold_apply) (simp add: s1)
  then have "panel_text (process_gui_queue s1) =
        (panel_text (process_gui_queue s))
          (system_health_check_info :=
             panel_text (process_gui_queue s) system_health_check_info @ admin_message @ newline @ newline)"
    by (simp add: panel_text_process_gui_queue s1 prims)
  then show ?thesis
    unfolding s2 s1_def [symmetric] by (simp add: s1)
qed

theorem denial_shown_in_health_panel_witness:
  "initialized (init []) \<and> \<not> is_admin denied_env \<and>
   gui_queue (snd (disk_cleanup WorkerThread denied_env (init []))) =
     gui_queue (init []) @ [Call_update_info_panel system_health_check_info admin_message] \<and>
   gui_queue (snd (start_health_check WorkerThread denied_env (init []))) =
     gui_queue (init []) @ [Call_update_info_panel system_health_check_info admin_message] \<and>
   panel_text (snd (disk_cleanup WorkerThread denied_env (init []))) = panel_text (init []) \<and>
   panel_text (process_gui_queue (snd (disk_cleanup WorkerThread denied_env (init [])))) disk_cleanup_info =
     panel_text (process_gui_queue (init [])) disk_cleanup_info \<and>
   panel_text (process_gui_queue (snd (disk_cleanup WorkerThread denied_env (init []))))
       system_health_check_info =
     panel_text (process_gui_queue (init [])) system_health_check_info @ admin_message @ newline @ newline"
proof -
  have h1: "initialized (init [])"
    by (rule initialized_init)
  have h2: "\<not> is_admin denied_env"
    by (simp add: is_admin_def denied_env_def)
  show ?thesis
    using h1 h2 denial_shown_in_health_panel [OF h1 h2, of WorkerThread] by simp
qed

subsection \<open>Defragment and optimize drives\<close>


lemma takeWhile_less_upt: "takeWhile (\<lambda>k. k < a) [0..<n] = [0..<min a n]"
proof (cases "n \<le> a")
  case True
  then have "\<forall>k\<in>set [0..<n]. k < a" by auto
  then have "takeWhile (\<lambda>k. k < a) [0..<n] = [0..<n]"
    by (simp only: takeWhile_eq_all_conv)
  then show ?thesis using True by (simp add: min_def)
next
  case False
  then have an: "a < n" by simp
  then have split: "[0..<n] = [0..<a] @ a # [Suc a..<n]"
    using upt_add_eq_append [of 0 a "n - a"] by (simp add: upt_conv_Cons)
  have "takeWhile (\<lambda>k. k < a) ([0..<a] @ a # [Suc a..<n]) =
        [0..<a] @ takeWhile (\<lambda>k. k < a) (a # [Suc a..<n])"
    by (rule takeWhile_append2) simp
  then have "takeWhile (\<lambda>k. k < a) ([0..<a] @ a # [Suc a..<n]) = [0..<a]"
    by simp
  then show ?thesis using an split by (simp add: min_def)
qed

lemma poll_steps_frame:
  "launched (poll_steps t lg i d alive steps xs s) = launched s \<and>
   loggers (poll_steps t lg i d alive steps xs s) = loggers s \<and>
   handlers (poll_steps t lg i d alive steps xs s) = handlers s \<and>
   bar_maximum (poll_steps t lg i d alive steps xs s) = bar_maximum s \<and>
   panel_text (poll_steps t lg i d alive steps xs s) = panel_text s \<and>
   filesystem (poll_steps t lg i d alive steps xs s) = filesystem s \<and>
   after_calls (poll_steps t lg i d alive steps xs s) = after_calls s"
  by (induction xs arbitrary: s) (simp_all add: Let_def prims)





lemma initialized_loggers:
  assumes "initialized s"
  shows "lookup_logger s ''defragment'' = Inr ''defragment''"
    and "lookup_logger s ''disk_cleanup'' = Inr ''disk_cleanup''"
    and "handlers_of s ''defragment'' = [''defragment.log'']"
    and "handlers_of s ''disk_cleanup'' = [''disk_cleanup.log'']"
  using assms
  by (simp_all add: initialized_def loggers_init handlers_init lookup_logger_def handlers_of_def)

lemma optimize_drive_frame:
  assumes "\<And>msg. Popen e (''defrag '' @ d @ '' /OPTIMIZE'') \<noteq> PopenRaises msg"
  shows "\<exists>s'. optimize_drive t e lg (i, d) s = (Returned, s') \<and>
           launched s' = launched s @ [''defrag '' @ d @ '' /OPTIMIZE''] \<and>
           bar_maximum s' = bar_maximum s \<and> loggers s' = loggers s \<and> handlers s' = handlers s \<and>
           filesystem s' = filesystem s \<and> after_calls s' = after_calls s"
proof (cases "Popen e (''defrag '' @ d @ '' /OPTIMIZE'')")
  case (Process alive returncode stderr)
  then show ?thesis
    by (simp add: optimize_drive_def Let_def poll_steps_frame prims)
next
  case (PopenCalledProcessError msg)
  then show ?thesis
    by (simp add: optimize_drive_def Let_def prims)
next
  case (PopenRaises msg)
  with assms show ?thesis by simp
qed

lemma defragment_completes:
  assumes "initialized s"
    and "\<And>msg. Popen e ''defrag C: /OPTIMIZE'' \<noteq> PopenRaises msg"
    and "\<And>msg. Popen e ''defrag D: /OPTIMIZE'' \<noteq> PopenRaises msg"
  shows "\<exists>s5. defragment_drives t e s =
           (Returned,
            put_reset_progress_bar defragment_and_optimize_drives_progress 1000
              (set_value t defragment_and_optimize_drives_progress 100
                 (thread_safe_update_info_panel defragment_and_optimize_drives_info
                    ''Defragmentation and optimization completed.''
                    (logger_log ''defragment'' INFO ''Defragmentation and Optimization Completed'' s5)))) \<and>
           launched s5 = launched s @ [''defrag C: /OPTIMIZE'', ''defrag D: /OPTIMIZE''] \<and>
           bar_maximum s5 = (bar_maximum s)(defragment_and_optimize_drives_progress := 200) \<and>
           after_calls s5 = after_calls s"
proof -
  define s4 where "s4 =
    logger_log ''defragment'' INFO ''Starting Defragmentation and Optimization''
      (set_maximum t defragment_and_optimize_drives_progress (of_nat (length drives * 100))
         (thread_safe_update_info_panel defragment_and_optimize_drives_info
            ''Initialized Defragment and Optimize Drives''
            (clear_info_panel t defragment_and_optimize_drives_info s)))"
  have s4: "launched s4 = launched s"
    "bar_maximum s4 = (bar_maximum s)(defragment_and_optimize_drives_progress := 200)"
    "after_calls s4 = after_calls s"
    by (simp_all add: s4_def prims drives_def)
  from optimize_drive_frame [of e "''C:''" t "''defragment''" 0 s4] assms(2)
  obtain sC where sC: "optimize_drive t e ''defragment'' (0, ''C:'') s4 = (Returned, sC)"
    "launched sC = launched s4 @ [''defrag C: /OPTIMIZE'']" "bar_maximum sC = bar_maximum s4"
    "after_calls sC = after_calls s4"
    by auto
  from optimize_drive_frame [of e "''D:''" t "''defragment''" "Suc 0" sC] assms(3)
  obtain sD where sD: "optimize_drive t e ''defragment'' (Suc 0, ''D:'') sC = (Returned, sD)"
    "launched sD = launched sC @ [''defrag D: /OPTIMIZE'']" "bar_maximum sD = bar_maximum sC"
    "after_calls sD = after_calls sC"
    by auto
  have loop: "for_each (optimize_drive t e ''defragment'') (enumerate 0 drives) s4 = (Returned, sD)"
    by (simp add: drives_def sC sD)
  have "defragment_drives t e s =
           (Returned,
            put_reset_progress_bar defragment_and_optimize_drives_progress 1000
              (set_value t defragment_and_optimize_drives_progress 100
                 (thread_safe_update_info_panel defragment_and_optimize_drives_info
                    ''Defragmentation and optimization completed.''
                    (logger_log ''defragment'' INFO ''Defragmentation and Optimization Completed'' sD))))"
    using loop
    by (simp add: defragment_drives_def initialized_loggers(1) [OF assms(1)] Let_def s4_def)
  then show ?thesis
    using s4 sC sD by auto
qed

lemma optimize_drive_probe:
  "optimize_drive t (e\<lparr>admin_probe := p\<rparr>) lg = optimize_drive t e lg"
  by (simp add: optimize_drive_def)

text \<open>
  Claim C9. \<open>defragment_drives\<close> never consults the elevation probe: whatever the probe
  answers, the run is the same. Unless \<open>Popen\<close> itself raises, the run launches the
  \<open>defrag\<close> command of both drives, returns normally and ends with the item that resets its
  progress bar, so it reaches its completion and is never cut short by a denial.
\<close>

theorem defragment_has_no_privilege_gate:
  assumes "initialized s"
    and "\<And>msg. Popen e ''defrag C: /OPTIMIZE'' \<noteq> PopenRaises msg"
    and "\<And>msg. Popen e ''defrag D: /OPTIMIZE'' \<noteq> PopenRaises msg"
  shows "defragment_drives t (e\<lparr>admin_probe := p\<rparr>) s = defragment_drives t e s \<and>
         fst (defragment_drives t e s) = Returned \<and>
         launched (snd (defragment_drives t e s)) =
           launched s @ [''defrag C: /OPTIMIZE'', ''defrag D: /OPTIMIZE''] \<and>
         last (gui_queue (snd (defragment_drives t e s))) =
           Call_reset_progress_bar_with_delay defragment_and_optimize_drives_progress 1000"
proof -
  have "defragment_drives t (e\<lparr>admin_probe := p\<rparr>) s = defragment_drives t e s"
    by (simp add: defragment_drives_def optimize_drive_probe cong: sum.case_cong)
  moreover from defragment_completes [OF assms, of t]
  have "fst (defragment_drives t e s) = Returned \<and>
         launched (snd (defragment_drives t e s)) =
           launched s @ [''defrag C: /OPTIMIZE'', ''defrag D: /OPTIMIZE''] \<and>
         last (gui_queue (snd (defragment_drives t e s))) =
           Call_reset_progress_bar_with_delay defragment_and_optimize_drives_progress 1000"
    by (auto simp add: prims)
  ultimately show ?thesis by simp
qed

theorem defragment_has_no_privilege_gate_witness:
  "initialized (init []) \<and>
   (\<forall>msg. Popen slow_env ''defrag C: /OPTIMIZE'' \<noteq> PopenRaises msg) \<and>
   (\<forall>msg. Popen slow_env ''defrag D: /OPTIMIZE'' \<noteq> PopenRaises msg) \<and>
   defragment_drives WorkerThread (slow_env\<lparr>admin_probe := IsUserAnAdmin True\<rparr>) (init []) =
     defragment_drives WorkerThread slow_env (init []) \<and>
   fst (defragment_drives WorkerThread slow_env (init [])) = Returned \<and>
   launched (snd (defragment_drives WorkerThread slow_env (init []))) =
     launched (init []) @ [''defrag C: /OPTIMIZE'', ''defrag D: /OPTIMIZE''] \<and>
   last (gui_queue (snd (defragment_drives WorkerThread slow_env (init [])))) =
     Call_reset_progress_bar_with_delay defragment_and_optimize_drives_progress 1000"
proof -
  have h1: "initialized (init [])"
    by (rule initialized_init)
  have h2: "Popen slow_env ''defrag C: /OPTIMIZE'' \<noteq> PopenRaises msg" for msg
    by (simp add: slow_env_def)
  have h3: "Popen slow_env ''defrag D: /OPTIMIZE'' \<noteq> PopenRaises msg" for msg
    by (simp add: slow_env_def)
  show ?thesis
    using h1 h2 h3
      defragment_has_no_privilege_gate [OF h1 h2 h3, of WorkerThread "IsUserAnAdmin True"]
    by simp
qed

subsection \<open>Threads and widgets\<close>

text \<open>
  Claim C4. The claim says that no widget is touched from a thread other than the one of the
  main loop. The buttons start the operations on a worker thread, and the operations clear
  their panel and set their progress bar directly. For the Optimize button, with both
  processes exiting at once: the panel is cleared, the maximum set to 200 and the value set to
  100 by the worker thread.
\<close>

theorem worker_thread_writes_widgets:
  "widget_ops (snd (button_press defragment_drives quick_env (init []))) =
     [(WorkerThread, PanelDelete defragment_and_optimize_drives_info),
      (WorkerThread, BarMaximum defragment_and_optimize_drives_progress 200),
      (WorkerThread, BarValue defragment_and_optimize_drives_progress 100)]"
  by code_simp


subsection \<open>Progress\<close>

lemma widget_ops_init: "widget_ops (init []) = []"
  by code_simp

lemma poll_steps_widget_ops:
  "widget_ops (poll_steps t lg i d alive steps xs s) =
     widget_ops s @
     map (\<lambda>step. (t, BarValue defragment_and_optimize_drives_progress (of_nat ((i * 100) + (step + 1)))))
       (takeWhile (\<lambda>step. step < alive) xs)"
  by (induction xs arbitrary: s) (simp_all add: Let_def prims)

lemma defragment_widget_ops:
  assumes "initialized s"
    and "Popen e ''defrag C: /OPTIMIZE'' = Process aliveC rcC errC"
    and "Popen e ''defrag D: /OPTIMIZE'' = Process aliveD rcD errD"
  shows "widget_ops (snd (defragment_drives t e s)) =
           widget_ops s @
           [(t, PanelDelete defragment_and_optimize_drives_info),
            (t, BarMaximum defragment_and_optimize_drives_progress 200)] @
           map (\<lambda>step. (t, BarValue defragment_and_optimize_drives_progress (of_nat (step + 1))))
             [0..<min aliveC 100] @
           map (\<lambda>step. (t, BarValue defragment_and_optimize_drives_progress (of_nat (100 + (step + 1)))))
             [0..<min aliveD 100] @
           [(t, BarValue defragment_and_optimize_drives_progress 100)]"
  using assms(2,3)
  by (simp add: defragment_drives_def initialized_loggers(1) [OF assms(1)] drives_def
      optimize_drive_def Let_def poll_steps_widget_ops takeWhile_less_upt prims)

text \<open>
  Claim C7, as stated, fails. With two drives whose processes are each found alive by three
  polls, the bar (maximum 200) is set to 1, 2, 3, then 101, 102, 103, and at the end to 100:
  it advances with the polls, not by half of the maximum for each drive attempted.
\<close>

theorem progress_steps_counterexample:
  "widget_ops (snd (defragment_drives WorkerThread slow_env (init []))) =
     [(WorkerThread, PanelDelete defragment_and_optimize_drives_info),
      (WorkerThread, BarMaximum defragment_and_optimize_drives_progress 200),
      (WorkerThread, BarValue defragment_and_optimize_drives_progress 1),
      (WorkerThread, BarValue defragment_and_optimize_drives_progress 2),
      (WorkerThread, BarValue defragment_and_optimize_drives_progress 3),
      (WorkerThread, BarValue defragment_and_optimize_drives_progress 101),
      (WorkerThread, BarValue defragment_and_optimize_drives_progress 102),
      (WorkerThread, BarValue defragment_and_optimize_drives_progress 103),
      (WorkerThread, BarValue defragment_and_optimize_drives_progress 100)]"
proof -
  have c: "Popen slow_env ''defrag C: /OPTIMIZE'' = Process 3 1 ''Access is denied.''"
    and d: "Popen slow_env ''defrag D: /OPTIMIZE'' = Process 3 1 ''Access is denied.''"
    by (simp_all add: slow_env_def)
  have "[0..<min 3 100] = [0, 1, 2::nat]"
    by (simp add: upt_rec)
  then show ?thesis
    using defragment_widget_ops [OF initialized_init c d, of WorkerThread]
    by (simp add: widget_ops_init)
qed

subsection \<open>System health check\<close>

lemma write_line_dom: "dom (map_of (write_line l f d)) = dom (map_of d)"
  by (auto simp add: write_line_def update_conv' split: option.splits)

lemma fold_write_line_dom: "dom (map_of (fold (write_line l) fs d)) = dom (map_of d)"
  by (induction fs arbitrary: d) (simp_all add: write_line_dom)

lemma logger_log_frame:
  "loggers (logger_log lg lvl m s) = loggers s"
  "handlers (logger_log lg lvl m s) = handlers s"
  "launched (logger_log lg lvl m s) = launched s"
  "gui_queue (logger_log lg lvl m s) = gui_queue s"
  "bar_value (logger_log lg lvl m s) = bar_value s"
  "bar_maximum (logger_log lg lvl m s) = bar_maximum s"
  "widget_ops (logger_log lg lvl m s) = widget_ops s"
  "filesystem (logger_log lg lvl m s) = filesystem s"
  "after_calls (logger_log lg lvl m s) = after_calls s"
  "panel_text (logger_log lg lvl m s) = panel_text s"
  "dom (map_of (log_dir (logger_log lg lvl m s))) = dom (map_of (log_dir s))"
  by (simp_all add: logger_log_def fold_write_line_dom)


lemma logger_log_appends:
  assumes "handlers_of s lg = [f]" and "map_of (log_dir s) f = Some old" and "levelno INFO \<le> levelno lvl"
  shows "map_of (log_dir (logger_log lg lvl m s)) f = Some (old @ [(lvl, m)])"
  using assms by (simp add: logger_log_def write_line_def update_conv')

lemma thread_safe_frame:
  "loggers (thread_safe_update_info_panel p m s) = loggers s"
  "handlers (thread_safe_update_info_panel p m s) = handlers s"
  "launched (thread_safe_update_info_panel p m s) = launched s"
  "log_dir (thread_safe_update_info_panel p m s) = log_dir s"
  "bar_value (thread_safe_update_info_panel p m s) = bar_value s"
  "bar_maximum (thread_safe_update_info_panel p m s) = bar_maximum s"
  "widget_ops (thread_safe_update_info_panel p m s) = widget_ops s"
  "filesystem (thread_safe_update_info_panel p m s) = filesystem s"
  "after_calls (thread_safe_update_info_panel p m s) = after_calls s"
  "panel_text (thread_safe_update_info_panel p m s) = panel_text s"
  "gui_queue (thread_safe_update_info_panel p m s) = gui_queue s @ [Call_update_info_panel p m]"
  by (simp_all add: thread_safe_update_info_panel_def)





lemma clear_info_panel_frame:
  "loggers (clear_info_panel t p s) = loggers s"
  "handlers (clear_info_panel t p s) = handlers s"
  "launched (clear_info_panel t p s) = launched s"
  "log_dir (clear_info_panel t p s) = log_dir s"
  "gui_queue (clear_info_panel t p s) = gui_queue s"
  "bar_value (clear_info_panel t p s) = bar_value s"
  "bar_maximum (clear_info_panel t p s) = bar_maximum s"
  "filesystem (clear_info_panel t p s) = filesystem s"
  "after_calls (clear_info_panel t p s) = after_calls s"
  by (simp_all add: clear_info_panel_def)








lemma lookup_all_KeyError:
  assumes "initialized s"
  shows "lookup_all s command_logger_keys = Inl (KeyError ''analyzeComponentStore'')"
  using assms
  by (simp add: initialized_def loggers_init command_logger_keys_def lookup_logger_def)

text \<open>
  Claim C3. The claim describes a health check that runs its six commands. In an elevated
  session \<open>start_health_check\<close> raises \<open>KeyError\<close> while it builds its dictionary of
  loggers, before any command is launched: \<open>initialize_loggers\<close> stores the loggers under
  lower-case keys, and the dictionary looks up \<open>analyzeComponentStore\<close>. The state is left as
  it was found.
\<close>

theorem health_check_raises_KeyError:
  assumes "initialized s" and "is_admin e"
  shows "start_health_check t e s = (Raised (KeyError ''analyzeComponentStore''), s)"
  using assms(2)
  by (simp add: start_health_check_def ensure_admin_def lookup_all_KeyError [OF assms(1)])

theorem health_check_raises_KeyError_witness:
  "initialized (init []) \<and> is_admin exit1_env \<and>
   subprocess_run exit1_env ''sfc /scannow'' = CompletedProcess 1 [] \<and>
   start_health_check WorkerThread exit1_env (init []) =
     (Raised (KeyError ''analyzeComponentStore''), init []) \<and>
   launched (init []) = []"
proof -
  have h1: "initialized (init [])"
    by (rule initialized_init)
  have h2: "is_admin exit1_env"
    by (simp add: is_admin_def exit1_env_def)
  have h3: "subprocess_run exit1_env ''sfc /scannow'' = CompletedProcess 1 []"
    by (simp add: exit1_env_def)
  have h4: "launched (init []) = []"
    by code_simp
  show ?thesis
    using h1 h2 h3 h4 health_check_raises_KeyError [OF h1 h2, of WorkerThread] by simp
qed

subsection \<open>Disk cleanup\<close>














subsection \<open>Clearing the logs\<close>

lemma logger_log_debug: "logger_log lg DEBUG m s = s"
  by (simp add: logger_log_def)

lemma fold_remove1_self: "fold remove1 xs (xs @ ys) = ys"
  by (induction xs) simp_all

lemma remove_handlers_result:
  assumes "map_of (loggers s) ''error_logger'' = Some err"
  shows "remove_handlers k lg hs s =
           (Returned,
            if hs = [] then s
            else s\<lparr>handlers := AList.update lg (fold remove1 hs (handlers_of s lg)) (handlers s)\<rparr>)"
  using assms
proof (induction hs arbitrary: s)
  case Nil
  then show ?case by simp
next
  case (Cons h hs)
  define s1 where "s1 = s\<lparr>handlers := AList.update lg (remove1 h (handlers_of s lg)) (handlers s)\<rparr>"
  have l1: "map_of (loggers s1) ''error_logger'' = Some err"
    using Cons.prems by (simp add: s1_def)
  have h1: "handlers_of s1 lg = remove1 h (handlers_of s lg)"
    by (simp add: s1_def handlers_of_def update_conv')
  have "remove_handlers k lg (h # hs) s = remove_handlers k lg hs s1"
    using l1 by (simp add: Let_def lookup_logger_def s1_def [symmetric] logger_log_debug)
  also have "\<dots> = (Returned,
            if hs = [] then s1
            else s1\<lparr>handlers := AList.update lg (fold remove1 hs (handlers_of s1 lg)) (handlers s1)\<rparr>)"
    by (rule Cons.IH [OF l1])
  also have "\<dots> = (Returned,
            s\<lparr>handlers := AList.update lg (fold remove1 (h # hs) (handlers_of s lg)) (handlers s)\<rparr>)"
    by (simp add: h1) (simp add: s1_def)
  finally show ?case
    by simp
qed

lemma close_file_handlers_result:
  assumes "map_of (loggers s) ''error_logger'' = Some err"
  shows "close_file_handlers (k, lg) s =
           (Returned,
            s\<lparr>handlers := (if handlers_of s lg = [] then handlers s
                            else AList.update lg [] (handlers s))\<rparr>)"
  using remove_handlers_result [OF assms, of k lg "handlers_of s lg"]
    fold_remove1_self [of "handlers_of s lg" "[]"]
  by (simp add: close_file_handlers_def)

lemma close_all_result:
  assumes "map_of (loggers s) ''error_logger'' = Some err"
  shows "for_each close_file_handlers ls s =
           (Returned,
            s\<lparr>handlers :=
                 fold (\<lambda>(k, lg) H. if (case map_of H lg of None \<Rightarrow> [] | Some hs \<Rightarrow> hs) = [] then H
                                    else AList.update lg [] H)
                   ls (handlers s)\<rparr>)"
  using assms
proof (induction ls arbitrary: s)
  case Nil
  then show ?case by simp
next
  case (Cons x ls)
  obtain k lg where x: "x = (k, lg)"
    by (cases x) auto
  define s1 where "s1 = s\<lparr>handlers := (if handlers_of s lg = [] then handlers s
                            else AList.update lg [] (handlers s))\<rparr>"
  have l1: "map_of (loggers s1) ''error_logger'' = Some err"
    using Cons.prems by (simp add: s1_def)
  have "for_each close_file_handlers (x # ls) s = for_each close_file_handlers ls s1"
    using close_file_handlers_result [OF Cons.prems, of k lg] by (simp add: x s1_def)
  also note Cons.IH [OF l1]
  finally show ?case
    by (simp add: x s1_def handlers_of_def)
qed

lemma closed_handlers_init:
  "fold (\<lambda>(k, lg) H. if (case map_of H lg of None \<Rightarrow> [] | Some hs \<Rightarrow> hs) = [] then H
                      else AList.update lg [] H)
     (loggers (init [])) (handlers (init [])) =
   map (\<lambda>(name, hs). (name, [])) (handlers (init []))"
  by code_simp


lemma no_handlers:
  assumes "concat (map snd H) = []"
  shows "(case map_of H n of None \<Rightarrow> [] | Some hs \<Rightarrow> hs) = []"
proof (cases "map_of H n")
  case None
  then show ?thesis by simp
next
  case (Some hs)
  then have "(n, hs) \<in> set H"
    by (rule map_of_SomeD)
  then have "hs \<in> set (map snd H)"
    by force
  with assms have "hs = []"
    by auto
  with Some show ?thesis by simp
qed

lemma filter_absent_key:
  assumes "map_of d g = None"
  shows "filter (\<lambda>(g', ls). g' \<noteq> g) d = d"
proof -
  have "g \<notin> fst ` set d"
    using assms by (simp add: map_of_eq_None_iff)
  then show ?thesis
    by (induction d) auto
qed

lemma remove_log_file_result:
  assumes "concat (map snd (handlers s)) = []" and "map_of (loggers s) ''error_logger'' = Some err"
  shows "remove_log_file g s = (Returned, s\<lparr>log_dir := filter (\<lambda>(g', ls). g' \<noteq> g) (log_dir s)\<rparr>)"
proof (cases "map_of (log_dir s) g")
  case None
  then show ?thesis
    by (simp add: remove_log_file_def filter_absent_key)
next
  case (Some ls)
  have closed: "\<not> is_open s g"
    using assms(1) by (simp add: is_open_def)
  have del: "AList.delete g (log_dir s) = filter (\<lambda>(g', ls). g' \<noteq> g) (log_dir s)"
    by (simp add: AList.delete_eq) (metis (mono_tags, lifting) case_prod_unfold)
  have quiet: "handlers_of (s\<lparr>log_dir := d\<rparr>) err = []" for d
    using no_handlers [OF assms(1), of err] by (simp add: handlers_of_def)
  show ?thesis
    using Some closed assms(2)
    by (simp add: remove_log_file_def lookup_logger_def Let_def logger_log_def quiet del)
qed

lemma remove_all_log_files:
  assumes "concat (map snd (handlers s)) = []" and "map_of (loggers s) ''error_logger'' = Some err"
  shows "for_each remove_log_file names s =
           (Returned, s\<lparr>log_dir := filter (\<lambda>(g, ls). g \<notin> set names) (log_dir s)\<rparr>)"
  using assms
proof (induction names arbitrary: s)
  case Nil
  then show ?case by simp
next
  case (Cons g names)
  define s1 where "s1 = s\<lparr>log_dir := filter (\<lambda>(g', ls). g' \<noteq> g) (log_dir s)\<rparr>"
  have p: "concat (map snd (handlers s1)) = []" "map_of (loggers s1) ''error_logger'' = Some err"
    using Cons.prems by (simp_all add: s1_def)
  have "for_each remove_log_file (g # names) s = for_each remove_log_file names s1"
    using remove_log_file_result [OF Cons.prems, of g] by (simp add: s1_def)
  also note Cons.IH [OF p]
  also have "filter (\<lambda>(g, ls). g \<notin> set names) (log_dir s1) =
             filter (\<lambda>(g', ls). g' \<notin> set (g # names)) (log_dir s)"
    by (auto simp add: s1_def intro: filter_cong)
  finally show ?case
    by (simp add: s1_def)
qed

lemma filter_all_keys: "filter (\<lambda>(g, ls). g \<notin> set (map fst d)) d = []"
  by (induction d) (auto simp add: filter_empty_conv)

lemma store_logger_logging_state:
  "logging_state (store_logger n f s) = store_logger n f (logging_state s)"
  by (simp add: logging_state_def store_logger_def get_logger_def handlers_of_def Let_def)

lemma fold_store_logger_logging_state:
  "logging_state (fold (\<lambda>(a, f). store_logger (g a) f) xs s) =
   fold (\<lambda>(a, f). store_logger (g a) f) xs (logging_state s)"
  by (induction xs arbitrary: s) (simp_all add: store_logger_logging_state split_beta)

lemma initialize_loggers_logging_state:
  "logging_state (initialize_loggers s) = initialize_loggers (logging_state s)"
proof -
  have "logging_state (s\<lparr>loggers := []\<rparr>) = (logging_state s)\<lparr>loggers := []\<rparr>"
    by (simp add: logging_state_def)
  then show ?thesis
    by (simp add: initialize_loggers_def Let_def store_logger_logging_state
        fold_store_logger_logging_state)
qed

lemma logging_state_fields:
  "loggers (logging_state s) = loggers s" "handlers (logging_state s) = handlers s"
  "log_dir (logging_state s) = log_dir s"
  by (simp_all add: logging_state_def)

lemma initialize_loggers_closed:
  "loggers (initialize_loggers
     (blank\<lparr>loggers := [], handlers := map (\<lambda>(name, hs). (name, [])) (handlers (init [])), log_dir := []\<rparr>)) =
   loggers (init [])"
  "handlers (initialize_loggers
     (blank\<lparr>loggers := [], handlers := map (\<lambda>(name, hs). (name, [])) (handlers (init [])), log_dir := []\<rparr>)) =
   handlers (init [])"
  "log_dir (initialize_loggers
     (blank\<lparr>loggers := [], handlers := map (\<lambda>(name, hs). (name, [])) (handlers (init [])), log_dir := []\<rparr>)) =
   log_dir (init [])"
  by code_simp+

lemma initialize_loggers_after_clearing:
  assumes "handlers s = map (\<lambda>(name, hs). (name, [])) (handlers (init []))" and "log_dir s = []"
  shows "loggers (initialize_loggers s) = loggers (init [])"
    and "handlers (initialize_loggers s) = handlers (init [])"
    and "log_dir (initialize_loggers s) = log_dir (init [])"
proof -
  have "initialize_loggers s = initialize_loggers (s\<lparr>loggers := []\<rparr>)"
    by (simp add: initialize_loggers_def)
  then have "logging_state (initialize_loggers s) =
        initialize_loggers (blank\<lparr>loggers := [],
          handlers := map (\<lambda>(name, hs). (name, [])) (handlers (init [])), log_dir := []\<rparr>)"
    using assms by (simp add: initialize_loggers_logging_state) (simp add: logging_state_def)
  then have "loggers (logging_state (initialize_loggers s)) = loggers (init [])"
    "handlers (logging_state (initialize_loggers s)) = handlers (init [])"
    "log_dir (logging_state (initialize_loggers s)) = log_dir (init [])"
    by (simp_all only: initialize_loggers_closed)
  then show "loggers (initialize_loggers s) = loggers (init [])"
    and "handlers (initialize_loggers s) = handlers (init [])"
    and "log_dir (initialize_loggers s) = log_dir (init [])"
    by (simp_all only: logging_state_fields)
qed

lemma clear_all_logs_result:
  assumes "initialized s"
  shows "\<exists>s'. clear_all_logs s = (Returned, s') \<and> loggers s' = loggers (init []) \<and>
           handlers s' = handlers (init []) \<and> log_dir s' = log_dir (init [])"
proof -
  have err: "map_of (loggers s) ''error_logger'' = Some ''error_logger''"
    using assms by (simp add: initialized_def loggers_init)
  define s1 where "s1 = s\<lparr>handlers := map (\<lambda>(name, hs). (name, [])) (handlers (init []))\<rparr>"
  have step1: "for_each close_file_handlers (loggers s) s = (Returned, s1)"
    using assms close_all_result [OF err, of "loggers s"] closed_handlers_init
    by (simp add: initialized_def s1_def)
  have quiet: "concat (map snd (handlers s1)) = []"
    by (simp add: s1_def handlers_init)
  have err1: "map_of (loggers s1) ''error_logger'' = Some ''error_logger''"
    using err by (simp add: s1_def)
  define s2 where "s2 = s1\<lparr>log_dir := []\<rparr>"
  have step2: "for_each remove_log_file (map fst (log_dir s1)) s1 = (Returned, s2)"
    using remove_all_log_files [OF quiet err1, of "map fst (log_dir s1)"]
    by (simp only: filter_all_keys s2_def)
  have s2: "handlers s2 = map (\<lambda>(name, hs). (name, [])) (handlers (init []))" "log_dir s2 = []"
    by (simp_all add: s2_def s1_def)
  have "clear_all_logs s =
          (Returned, messagebox ''Logs Cleared'' ''All log files have been cleared.'' (initialize_loggers s2))"
    by (simp add: clear_all_logs_def step1 step2)
  then show ?thesis
    using initialize_loggers_after_clearing [OF s2] by (simp add: messagebox_def)
qed


lemma registered_logger:
  assumes "(key, lg) \<in> set (loggers (init []))"
  shows "\<exists>f. map_of (handlers (init [])) lg = Some [f] \<and> map_of (log_dir (init [])) f = Some []"
  using assms by (auto simp add: loggers_init handlers_init log_dir_init)

text \<open>
  Claim C5, as amended. From a toolkit whose loggers are set up, \<open>clear_all_logs\<close> returns
  normally and leaves the loggers set up again; every logger of \<open>self.loggers\<close> then has one
  handler, on an empty file, whatever the file held before; and a message logged to it at
  level \<open>INFO\<close> or above makes that message the only line of the file. The handlers are
  removed from the loggers before the files are removed, which is why no removal fails.
\<close>

theorem clear_then_write:
  assumes "initialized s" and "(key, lg) \<in> set (loggers s)" and "levelno INFO \<le> levelno lvl"
  shows "\<exists>s' f. clear_all_logs s = (Returned, s') \<and> initialized s' \<and>
           handlers_of s' lg = [f] \<and> map_of (log_dir s') f = Some [] \<and>
           map_of (log_dir (logger_log lg lvl msg s')) f = Some [(lvl, msg)]"
proof -
  from clear_all_logs_result [OF assms(1)]
  obtain s' where s': "clear_all_logs s = (Returned, s')" "loggers s' = loggers (init [])"
    "handlers s' = handlers (init [])" "log_dir s' = log_dir (init [])"
    by blast
  have "(key, lg) \<in> set (loggers (init []))"
    using assms(1,2) by (simp add: initialized_def)
  from registered_logger [OF this]
  obtain f where f: "map_of (handlers (init [])) lg = Some [f]" "map_of (log_dir (init [])) f = Some []"
    by blast
  have h: "handlers_of s' lg = [f]" and e: "map_of (log_dir s') f = Some []"
    using f s' by (simp_all add: handlers_of_def)
  have i: "initialized s'"
    using s' by (simp add: initialized_def) (simp add: log_dir_init)
  from logger_log_appends [OF h e assms(3), of msg]
  have "map_of (log_dir (logger_log lg lvl msg s')) f = Some [(lvl, msg)]"
    by simp
  with s'(1) i h e show ?thesis
    by blast
qed


theorem clear_then_write_witness:
  "initialized (logger_log ''defragment'' INFO ''residue'' (init [])) \<and>
   (''defragment'', ''defragment'') \<in> set (loggers (logger_log ''defragment'' INFO ''residue'' (init []))) \<and>
   levelno INFO \<le> levelno WARNING \<and>
   map_of (log_dir (logger_log ''defragment'' INFO ''residue'' (init []))) ''defragment.log'' =
     Some [(INFO, ''residue'')] \<and>
   (\<exists>s' f. clear_all_logs (logger_log ''defragment'' INFO ''residue'' (init [])) = (Returned, s') \<and>
      initialized s' \<and> handlers_of s' ''defragment'' = [f] \<and> map_of (log_dir s') f = Some [] \<and>
      map_of (log_dir (logger_log ''defragment'' WARNING ''after the clear'' s')) f =
        Some [(WARNING, ''after the clear'')])"
proof -
  have h1: "initialized (logger_log ''defragment'' INFO ''residue'' (init []))"
    by code_simp
  have h2: "(''defragment'', ''defragment'') \<in>
            set (loggers (logger_log ''defragment'' INFO ''residue'' (init [])))"
    by (simp add: logger_log_frame loggers_init)
  have h3: "levelno INFO \<le> levelno WARNING"
    by simp
  have h4: "map_of (log_dir (logger_log ''defragment'' INFO ''residue'' (init []))) ''defragment.log'' =
            Some [(INFO, ''residue'')]"
    by code_simp
  show ?thesis
    using h1 h2 h3 h4 clear_then_write [OF h1 h2 h3, of "''after the clear''"] by simp
qed

text \<open>
  Claim C5, as stated, fails for a write below the level of the loggers: after
  \<open>clear_all_logs\<close>, a message logged at level \<open>DEBUG\<close> to the error logger (as
  \<open>clear_all_logs\<close> itself does) leaves \<open>error.log\<close> empty.
\<close>

theorem debug_write_is_dropped_counterexample:
  "fst (clear_all_logs (init [])) = Returned \<and>
   handlers_of (snd (clear_all_logs (init []))) ''error_logger'' = [''error.log''] \<and>
   map_of (log_dir (logger_log ''error_logger'' DEBUG ''Removed handler''
                      (snd (clear_all_logs (init []))))) ''error.log'' = Some []"
proof -
  from clear_all_logs_result [OF initialized_init]
  obtain s' where s': "clear_all_logs (init []) = (Returned, s')" "handlers s' = handlers (init [])"
    "log_dir s' = log_dir (init [])"
    by blast
  show ?thesis
    by (simp add: s' logger_log_debug handlers_of_def handlers_init log_dir_init)
qed

subsection \<open>Progress at the end of a run\<close>

lemma try_delete_bars:
  "widget_ops (snd (try_delete lg what path r acc)) = widget_ops (snd acc) \<and>
   bar_value (snd (try_delete lg what path r acc)) = bar_value (snd acc) \<and>
   bar_maximum (snd (try_delete lg what path r acc)) = bar_maximum (snd acc)"
  by (cases acc; cases r) (simp_all add: try_delete_def logger_log_frame thread_safe_frame)

lemma unlink_files_bars:
  "widget_ops (snd (snd (unlink_files lg dir ns acc))) = widget_ops (snd acc) \<and>
   bar_value (snd (snd (unlink_files lg dir ns acc))) = bar_value (snd acc) \<and>
   bar_maximum (snd (snd (unlink_files lg dir ns acc))) = bar_maximum (snd acc)"
  by (induction lg dir ns acc rule: unlink_files.induct)
     (simp_all add: Let_def split_beta try_delete_bars)

lemma rmdir_dirs_bars:
  "widget_ops (snd (snd (rmdir_dirs lg dir ns acc))) = widget_ops (snd acc) \<and>
   bar_value (snd (snd (rmdir_dirs lg dir ns acc))) = bar_value (snd acc) \<and>
   bar_maximum (snd (snd (rmdir_dirs lg dir ns acc))) = bar_maximum (snd acc)"
  by (induction lg dir ns acc rule: rmdir_dirs.induct)
     (simp_all add: Let_def split_beta try_delete_bars)

lemma walk_bars:
  "widget_ops (snd (snd (walk lg dir ns acc))) = widget_ops (snd acc) \<and>
   bar_value (snd (snd (walk lg dir ns acc))) = bar_value (snd acc) \<and>
   bar_maximum (snd (snd (walk lg dir ns acc))) = bar_maximum (snd acc)"
  and walk_dirs_bars:
  "widget_ops (snd (snd (walk_dirs lg dir ns acc))) = widget_ops (snd acc) \<and>
   bar_value (snd (snd (walk_dirs lg dir ns acc))) = bar_value (snd acc) \<and>
   bar_maximum (snd (snd (walk_dirs lg dir ns acc))) = bar_maximum (snd acc)"
proof (induction lg dir ns acc and lg dir ns acc rule: walk_walk_dirs.induct)
  case (1 logger root_dir ns acc)
  then show ?case
    by (simp add: Let_def split_beta unlink_files_bars rmdir_dirs_bars)
next
  case (2 logger root_dir acc)
  then show ?case by simp
next
  case (3 logger root_dir name r ns acc)
  then show ?case
    by (simp add: Let_def split_beta del: walk.simps)
next
  case (4 logger root_dir name r cs ns acc)
  obtain cs' acc1 where w: "walk logger (join_path root_dir name) cs acc = (cs', acc1)"
    by (cases "walk logger (join_path root_dir name) cs acc") auto
  from "4.IH"(1) w have a: "widget_ops (snd acc1) = widget_ops (snd acc)"
    "bar_value (snd acc1) = bar_value (snd acc)" "bar_maximum (snd acc1) = bar_maximum (snd acc)"
    by simp_all
  from "4.IH"(2) [OF refl w [symmetric]] a show ?case
    by (simp add: Let_def split_beta w del: walk.simps)
qed

lemma clean_path_bars:
  "widget_ops (snd (clean_path lg path acc)) = widget_ops (snd acc) \<and>
   bar_value (snd (clean_path lg path acc)) = bar_value (snd acc) \<and>
   bar_maximum (snd (clean_path lg path acc)) = bar_maximum (snd acc)"
  by (cases acc)
     (simp add: clean_path_def split_beta walk_bars logger_log_frame thread_safe_frame
        split: option.splits del: walk.simps)

lemma fold_clean_path_bars:
  "widget_ops (snd (fold (clean_path lg) paths acc)) = widget_ops (snd acc) \<and>
   bar_value (snd (fold (clean_path lg) paths acc)) = bar_value (snd acc) \<and>
   bar_maximum (snd (fold (clean_path lg) paths acc)) = bar_maximum (snd acc)"
  by (induction paths arbitrary: acc) (simp_all add: clean_path_bars)

lemma disk_cleanup_progress_end:
  assumes "initialized s" and "is_admin e"
  shows "\<exists>s'. disk_cleanup t e s = (Returned, s') \<and>
           widget_ops s' =
             widget_ops s @ [(t, PanelDelete disk_cleanup_info), (t, BarValue disk_cleanup_progress 100)] \<and>
           bar_value s' disk_cleanup_progress = 100 \<and>
           bar_maximum s' = bar_maximum s \<and>
           last (gui_queue s') = Call_reset_progress_bar_with_delay disk_cleanup_progress 1000"
proof -
  define r where "r = fold (clean_path ''disk_cleanup'') (cleanup_paths e)
      (\<lparr>deleted_files = [], in_use_files = [], permission_denied_files = []\<rparr>,
       thread_safe_update_info_panel disk_cleanup_info (''Starting Disk Cleanup...'' @ newline)
         (clear_info_panel t disk_cleanup_info s))"
  define s7 where "s7 =
     logger_log ''disk_cleanup'' INFO
       (''Permission Denied Files: '' @ str_nat (length (permission_denied_files (fst r))))
       (logger_log ''disk_cleanup'' INFO (''In Use Files: '' @ str_nat (length (in_use_files (fst r))))
          (logger_log ''disk_cleanup'' INFO (''Deleted Files: '' @ str_nat (length (deleted_files (fst r))))
             (logger_log ''disk_cleanup'' INFO ''Disk Cleanup Completed'' (snd r))))"
  define s' where "s' = put_reset_progress_bar disk_cleanup_progress 1000
                          (set_value t disk_cleanup_progress 100
                             (thread_safe_update_info_panel disk_cleanup_info (completion_message (fst r)) s7))"
  have bars: "widget_ops (snd r) = widget_ops s @ [(t, PanelDelete disk_cleanup_info)]"
    "bar_maximum (snd r) = bar_maximum s"
    by (simp_all add: r_def fold_clean_path_bars thread_safe_frame clear_info_panel_def)
  have run: "disk_cleanup t e s = (Returned, s')"
    using assms(2)
    by (simp add: disk_cleanup_def ensure_admin_def initialized_loggers(2) [OF assms(1)] Let_def
        split_beta r_def s7_def s'_def)
  have "widget_ops s' =
             widget_ops s @ [(t, PanelDelete disk_cleanup_info), (t, BarValue disk_cleanup_progress 100)]"
    "bar_value s' disk_cleanup_progress = 100"
    "bar_maximum s' = bar_maximum s"
    "last (gui_queue s') = Call_reset_progress_bar_with_delay disk_cleanup_progress 1000"
    by (simp_all add: s'_def s7_def put_reset_progress_bar_def set_value_def thread_safe_frame
        logger_log_frame bars)
  with run show ?thesis
    by blast
qed


lemma run_commands_iteration:
  assumes "map_of (loggers s) ''error_logger'' = Some err"
  shows "\<exists>s1. (run_commands t e lgs n inc ((i, name, command) # rest) s = run_commands t e lgs n inc rest s1 \<or>
               run_commands t e lgs n inc ((i, name, command) # rest) s = (Returned, s1)) \<and>
           bar_value s1 system_health_check_progress = bar_value s system_health_check_progress + inc \<and>
           bar_maximum s1 = bar_maximum s \<and> loggers s1 = loggers s"
proof -
  define logger where "logger = (case map_of lgs name of None \<Rightarrow> err | Some lg \<Rightarrow> lg)"
  define s2 where "s2 = (thread_safe_update_info_panel system_health_check_info
                 (''Executing command '' @ str_nat i @ ''/'' @ str_nat n @ '': '' @ command) s)
                 \<lparr>launched := launched s @ [command]\<rparr>"
  have s2: "bar_value s2 = bar_value s" "bar_maximum s2 = bar_maximum s" "loggers s2 = loggers s"
    by (simp_all add: s2_def thread_safe_frame)
  have adv: "bar_value (advance_progress t inc x) system_health_check_progress =
               bar_value x system_health_check_progress + inc"
    "bar_maximum (advance_progress t inc x) = bar_maximum x"
    "loggers (advance_progress t inc x) = loggers x" for x
    by (simp_all add: advance_progress_def set_value_def)
  show ?thesis
  proof (cases "subprocess_run e command")
    case (CompletedProcess rc out)
    define s3 where "s3 = fold (\<lambda>line. logger_log logger INFO (strip line)) out s2"
    define msg where "msg = (if rc = 0 then ''Command '' @ str_nat i @ '' completed successfully.''
                           else ''Command '' @ str_nat i @ '' failed with error code: '' @ str_int rc)"
    define s5 where "s5 = advance_progress t inc
                          (logger_log logger (if rc = 0 then INFO else ERROR) msg
                             (thread_safe_update_info_panel system_health_check_info msg s3))"
    have s3: "bar_value s3 = bar_value s" "bar_maximum s3 = bar_maximum s" "loggers s3 = loggers s"
      unfolding s3_def using s2
      by (induction out arbitrary: s2) (simp_all add: logger_log_frame)
    have "run_commands t e lgs n inc ((i, name, command) # rest) s = run_commands t e lgs n inc rest s5"
      using assms CompletedProcess
      by (simp add: lookup_logger_def Let_def thread_safe_frame s5_def s3_def s2_def msg_def logger_def)
    moreover have "bar_value s5 system_health_check_progress = bar_value s system_health_check_progress + inc"
      "bar_maximum s5 = bar_maximum s" "loggers s5 = loggers s"
      by (simp_all add: s5_def adv logger_log_frame thread_safe_frame s3)
    ultimately show ?thesis
      by blast
  next
    case TimeoutExpired
    define msg where "msg = ''Command '' @ str_nat i @ '' timed out.''"
    define s5 where "s5 = advance_progress t inc
                          (logger_log logger ERROR msg
                             (thread_safe_update_info_panel system_health_check_info msg s2))"
    have "run_commands t e lgs n inc ((i, name, command) # rest) s = (Returned, s5)"
      using assms TimeoutExpired
      by (simp add: lookup_logger_def Let_def thread_safe_frame s5_def s2_def msg_def logger_def)
    moreover have "bar_value s5 system_health_check_progress = bar_value s system_health_check_progress + inc"
      "bar_maximum s5 = bar_maximum s" "loggers s5 = loggers s"
      by (simp_all add: s5_def adv logger_log_frame thread_safe_frame s2)
    ultimately show ?thesis
      by blast
  next
    case (RunRaises m)
    define msg where "msg = ''Error executing command '' @ str_nat i @ '': '' @ m"
    define s5 where "s5 = advance_progress t inc
                          (logger_log logger ERROR msg
                             (thread_safe_update_info_panel system_health_check_info msg s2))"
    have "run_commands t e lgs n inc ((i, name, command) # rest) s = (Returned, s5)"
      using assms RunRaises
      by (simp add: lookup_logger_def Let_def thread_safe_frame s5_def s2_def msg_def logger_def)
    moreover have "bar_value s5 system_health_check_progress = bar_value s system_health_check_progress + inc"
      "bar_maximum s5 = bar_maximum s" "loggers s5 = loggers s"
      by (simp_all add: s5_def adv logger_log_frame thread_safe_frame s2)
    ultimately show ?thesis
      by blast
  qed
qed

lemma run_commands_returns:
  assumes "map_of (loggers s) ''error_logger'' = Some err"
  shows "\<exists>s'. run_commands t e lgs n inc cmds s = (Returned, s') \<and> bar_maximum s' = bar_maximum s"
  using assms
proof (induction cmds arbitrary: s)
  case Nil
  then show ?case by simp
next
  case (Cons x cmds)
  obtain i name command where x: "x = (i, name, command)"
    by (cases x) auto
  from run_commands_iteration [OF Cons.prems, of t e lgs n inc i name command cmds]
  obtain s1 where s1:
    "run_commands t e lgs n inc ((i, name, command) # cmds) s = run_commands t e lgs n inc cmds s1 \<or>
     run_commands t e lgs n inc ((i, name, command) # cmds) s = (Returned, s1)"
    "bar_maximum s1 = bar_maximum s" "loggers s1 = loggers s"
    by blast
  have "map_of (loggers s1) ''error_logger'' = Some err"
    using Cons.prems s1(3) by simp
  from Cons.IH [OF this] obtain s' where
    "run_commands t e lgs n inc cmds s1 = (Returned, s')" "bar_maximum s' = bar_maximum s1"
    by blast
  with s1 show ?case
    unfolding x by (metis (no_types, lifting))
qed

lemma health_check_progress_end:
  assumes "map_of (loggers s) ''error_logger'' = Some err"
  shows "\<exists>s'. health_check_body t e lgs s = (Returned, s') \<and>
           bar_value s' system_health_check_progress = 100 \<and>
           bar_maximum s' = bar_maximum s \<and>
           last (gui_queue s') = Call_reset_progress_bar_with_delay system_health_check_progress 1000"
proof -
  define s2 where "s2 = thread_safe_update_info_panel system_health_check_info
                          ''Initializing System Health Check...''
                          (clear_info_panel t system_health_check_info s)"
  have err2: "map_of (loggers s2) ''error_logger'' = Some err"
    using assms by (simp add: s2_def thread_safe_frame clear_info_panel_frame)
  from run_commands_returns [OF err2, of t e lgs "length commands" "100 / of_nat (length commands)"
      "enumerate 1 commands"]
  obtain s3 where s3: "run_commands t e lgs (length commands) (100 / of_nat (length commands))
                          (enumerate 1 commands) s2 = (Returned, s3)"
    "bar_maximum s3 = bar_maximum s2"
    by blast
  define s' where "s' = put_reset_progress_bar system_health_check_progress 1000
             (set_value t system_health_check_progress 100
                (thread_safe_update_info_panel system_health_check_info
                   ''System Health Check completed.'' s3))"
  have "health_check_body t e lgs s = (Returned, s')"
    using s3(1) by (simp add: health_check_body_def Let_def s2_def s'_def)
  moreover have "bar_value s' system_health_check_progress = 100" "bar_maximum s' = bar_maximum s"
    "last (gui_queue s') = Call_reset_progress_bar_with_delay system_health_check_progress 1000"
    by (simp_all add: s'_def put_reset_progress_bar_def set_value_def thread_safe_frame s3(2) s2_def
        clear_info_panel_frame)
  ultimately show ?thesis
    by blast
qed

lemma after_calls_fold_apply:
  "\<exists>a. after_calls (fold (apply_call t) q s) = after_calls s @ a"
proof (induction q arbitrary: s)
  case Nil
  show ?case by simp
next
  case (Cons c q)
  obtain a1 where a1: "after_calls (apply_call t c s) = after_calls s @ a1"
    by (cases c) (simp_all add: update_info_panel_def reset_progress_bar_with_delay_def)
  from Cons.IH [of "apply_call t c s"] obtain a2 where
    "after_calls (fold (apply_call t) q (apply_call t c s)) = after_calls (apply_call t c s) @ a2"
    by blast
  with a1 show ?case
    by simp
qed

lemma reset_after_tick:
  assumes "gui_queue s \<noteq> []" and "last (gui_queue s) = Call_reset_progress_bar_with_delay b delay"
  shows "\<exists>a. after_calls (process_gui_queue s) = a @ [(delay, Cb_reset_value b), (100, Cb_process_gui_queue)]"
proof -
  have q: "gui_queue s = butlast (gui_queue s) @ [Call_reset_progress_bar_with_delay b delay]"
    using assms by (metis append_butlast_last_id)
  define x where "x = fold (apply_call UIThread) (butlast (gui_queue s)) (s\<lparr>gui_queue := []\<rparr>)"
  have "drain_gui_queue UIThread s =
          fold (apply_call UIThread) (butlast (gui_queue s) @ [Call_reset_progress_bar_with_delay b delay])
            (s\<lparr>gui_queue := []\<rparr>)"
    using q by (simp add: drain_fold)
  then have "drain_gui_queue UIThread s = reset_progress_bar_with_delay b delay x"
    by (simp add: x_def)
  then have "after_calls (process_gui_queue s) =
               after_calls x @ [(delay, Cb_reset_value b), (100, Cb_process_gui_queue)]"
    by (simp add: process_gui_queue_def Let_def reset_progress_bar_with_delay_def)
  then show ?thesis
    by blast
qed

lemma optimize_drive_widget_ops:
  assumes "Popen e (''defrag '' @ drive @ '' /OPTIMIZE'') = Process alive rc errtext"
  shows "widget_ops (snd (optimize_drive t e lg (i, drive) s)) =
           widget_ops s @
           map (\<lambda>step. (t, BarValue defragment_and_optimize_drives_progress (of_nat ((i * 100) + (step + 1)))))
             [0..<min alive 100]"
  using assms
  by (simp add: optimize_drive_def Let_def poll_steps_widget_ops takeWhile_less_upt prims)

text \<open>
  Claim C7, as amended. From a toolkit whose loggers are set up and whose bars have their
  default maximum 100, with the process elevated and a \<open>defrag\<close> process started for each drive:
  disk cleanup returns with its bar written once, to 100, the maximum; the health-check body
  returns with its bar at 100, the maximum; one iteration of the health-check loop adds
  \<open>progress_increment\<close> to the bar whatever the command's outcome; the defragment loop writes
  \<open>100 * i + k\<close> at the \<open>k\<close>-th poll that finds the process of drive \<open>i\<close> alive, at most 100
  polls; each of the three operations enqueues \<open>reset_progress_bar_with_delay\<close> of its bar,
  1000 ms, as its last item, and when the queue is processed a timer of 1000 ms is armed for
  it; the timer's callback sets the value to 0. The value of the defragment bar at the end of
  the run, 100 under a maximum of 200, is left out.
\<close>

theorem progress_reporting:
  assumes init: "initialized s" and admin: "is_admin e"
    and maxima: "bar_maximum s system_health_check_progress = 100" "bar_maximum s disk_cleanup_progress = 100"
    and procC: "Popen e (''defrag '' @ ''C:'' @ '' /OPTIMIZE'') = Process aliveC rcC errC"
    and procD: "Popen e (''defrag '' @ ''D:'' @ '' /OPTIMIZE'') = Process aliveD rcD errD"
  shows "(\<exists>s' a. disk_cleanup t e s = (Returned, s') \<and>
            widget_ops s' =
              widget_ops s @ [(t, PanelDelete disk_cleanup_info), (t, BarValue disk_cleanup_progress 100)] \<and>
            bar_value s' disk_cleanup_progress = bar_maximum s' disk_cleanup_progress \<and>
            last (gui_queue s') = Call_reset_progress_bar_with_delay disk_cleanup_progress 1000 \<and>
            after_calls (process_gui_queue s') =
              a @ [(1000, Cb_reset_value disk_cleanup_progress), (100, Cb_process_gui_queue)]) \<and>
         (\<exists>s' a. health_check_body t e lgs s = (Returned, s') \<and>
            bar_value s' system_health_check_progress = 100 \<and>
            bar_value s' system_health_check_progress = bar_maximum s' system_health_check_progress \<and>
            last (gui_queue s') = Call_reset_progress_bar_with_delay system_health_check_progress 1000 \<and>
            after_calls (process_gui_queue s') =
              a @ [(1000, Cb_reset_value system_health_check_progress), (100, Cb_process_gui_queue)]) \<and>
         (\<exists>s1. (run_commands t e lgs n inc ((i, name, command) # rest) s = run_commands t e lgs n inc rest s1 \<or>
                run_commands t e lgs n inc ((i, name, command) # rest) s = (Returned, s1)) \<and>
            bar_value s1 system_health_check_progress = bar_value s system_health_check_progress + inc) \<and>
         widget_ops (snd (optimize_drive t e lg (0, ''C:'') s)) =
           widget_ops s @
           map (\<lambda>step. (t, BarValue defragment_and_optimize_drives_progress (of_nat ((0 * 100) + (step + 1)))))
             [0..<min aliveC 100] \<and>
         widget_ops (snd (optimize_drive t e lg (1, ''D:'') s)) =
           widget_ops s @
           map (\<lambda>step. (t, BarValue defragment_and_optimize_drives_progress (of_nat ((1 * 100) + (step + 1)))))
             [0..<min aliveD 100] \<and>
         (\<exists>s' a. defragment_drives t e s = (Returned, s') \<and>
            last (gui_queue s') = Call_reset_progress_bar_with_delay defragment_and_optimize_drives_progress 1000 \<and>
            after_calls (process_gui_queue s') =
              a @ [(1000, Cb_reset_value defragment_and_optimize_drives_progress), (100, Cb_process_gui_queue)]) \<and>
         bar_value (run_callback (Cb_reset_value b) s0) b = 0"
proof -
  have err: "map_of (loggers s) ''error_logger'' = Some ''error_logger''"
    using init by (simp add: initialized_def loggers_init)
  have 1: "\<exists>s' a. disk_cleanup t e s = (Returned, s') \<and>
            widget_ops s' =
              widget_ops s @ [(t, PanelDelete disk_cleanup_info), (t, BarValue disk_cleanup_progress 100)] \<and>
            bar_value s' disk_cleanup_progress = bar_maximum s' disk_cleanup_progress \<and>
            last (gui_queue s') = Call_reset_progress_bar_with_delay disk_cleanup_progress 1000 \<and>
            after_calls (process_gui_queue s') =
              a @ [(1000, Cb_reset_value disk_cleanup_progress), (100, Cb_process_gui_queue)]"
  proof -
    from disk_cleanup_progress_end [OF init admin, of t]
    obtain s' where s': "disk_cleanup t e s = (Returned, s')"
      "widget_ops s' =
         widget_ops s @ [(t, PanelDelete disk_cleanup_info), (t, BarValue disk_cleanup_progress 100)]"
      "bar_value s' disk_cleanup_progress = 100" "bar_maximum s' = bar_maximum s"
      "last (gui_queue s') = Call_reset_progress_bar_with_delay disk_cleanup_progress 1000"
      by blast
    have ne: "gui_queue s' \<noteq> []"
      using s'(1) admin
      by (auto simp add: disk_cleanup_def ensure_admin_def initialized_loggers(2) [OF init] Let_def
          split_beta put_reset_progress_bar_def)
    from reset_after_tick [OF ne s'(5)] obtain a where
      "after_calls (process_gui_queue s') =
         a @ [(1000, Cb_reset_value disk_cleanup_progress), (100, Cb_process_gui_queue)]"
      by blast
    with s' maxima(2) show ?thesis
      by auto
  qed
  have 2: "\<exists>s' a. health_check_body t e lgs s = (Returned, s') \<and>
            bar_value s' system_health_check_progress = 100 \<and>
            bar_value s' system_health_check_progress = bar_maximum s' system_health_check_progress \<and>
            last (gui_queue s') = Call_reset_progress_bar_with_delay system_health_check_progress 1000 \<and>
            after_calls (process_gui_queue s') =
              a @ [(1000, Cb_reset_value system_health_check_progress), (100, Cb_process_gui_queue)]"
  proof -
    from health_check_progress_end [OF err, of t e lgs]
    obtain s' where s': "health_check_body t e lgs s = (Returned, s')"
      "bar_value s' system_health_check_progress = 100" "bar_maximum s' = bar_maximum s"
      "last (gui_queue s') = Call_reset_progress_bar_with_delay system_health_check_progress 1000"
      by blast
    have ne: "gui_queue s' \<noteq> []"
      using s'(1)
      by (auto simp add: health_check_body_def Let_def put_reset_progress_bar_def
          split: prod.splits outcome.splits)
    from reset_after_tick [OF ne s'(4)] obtain a where
      "after_calls (process_gui_queue s') =
         a @ [(1000, Cb_reset_value system_health_check_progress), (100, Cb_process_gui_queue)]"
      by blast
    with s' maxima(1) show ?thesis
      by auto
  qed
  have 3: "\<exists>s1. (run_commands t e lgs n inc ((i, name, command) # rest) s = run_commands t e lgs n inc rest s1 \<or>
                run_commands t e lgs n inc ((i, name, command) # rest) s = (Returned, s1)) \<and>
            bar_value s1 system_health_check_progress = bar_value s system_health_check_progress + inc"
    using run_commands_iteration [OF err, of t e lgs n inc i name command rest] by blast
  have 4: "widget_ops (snd (optimize_drive t e lg (0, ''C:'') s)) =
           widget_ops s @
           map (\<lambda>step. (t, BarValue defragment_and_optimize_drives_progress (of_nat ((0 * 100) + (step + 1)))))
             [0..<min aliveC 100]"
    by (rule optimize_drive_widget_ops [OF procC])
  have 5: "widget_ops (snd (optimize_drive t e lg (1, ''D:'') s)) =
           widget_ops s @
           map (\<lambda>step. (t, BarValue defragment_and_optimize_drives_progress (of_nat ((1 * 100) + (step + 1)))))
             [0..<min aliveD 100]"
    by (rule optimize_drive_widget_ops [OF procD])
  have 6: "\<exists>s' a. defragment_drives t e s = (Returned, s') \<and>
            last (gui_queue s') = Call_reset_progress_bar_with_delay defragment_and_optimize_drives_progress 1000 \<and>
            after_calls (process_gui_queue s') =
              a @ [(1000, Cb_reset_value defragment_and_optimize_drives_progress), (100, Cb_process_gui_queue)]"
  proof -
    have c: "Popen e ''defrag C: /OPTIMIZE'' \<noteq> PopenRaises msg" for msg
      using procC by simp
    have d: "Popen e ''defrag D: /OPTIMIZE'' \<noteq> PopenRaises msg" for msg
      using procD by simp
    from defragment_completes [OF init c d, of t]
    obtain s' where s': "defragment_drives t e s = (Returned, s')"
      "gui_queue s' \<noteq> []"
      "last (gui_queue s') = Call_reset_progress_bar_with_delay defragment_and_optimize_drives_progress 1000"
      by (auto simp add: put_reset_progress_bar_def)
    from reset_after_tick [OF s'(2,3)] s' show ?thesis
      by blast
  qed
  have 7: "bar_value (run_callback (Cb_reset_value b) s0) b = 0"
    by (simp add: set_value_def)
  from 1 2 3 4 5 6 7 show ?thesis
    by (intro conjI)
qed

theorem progress_reporting_witness:
  "initialized (init []) \<and> is_admin (slow_env\<lparr>admin_probe := IsUserAnAdmin True\<rparr>) \<and>
   bar_maximum (init []) system_health_check_progress = 100 \<and>
   bar_maximum (init []) disk_cleanup_progress = 100 \<and>
   Popen (slow_env\<lparr>admin_probe := IsUserAnAdmin True\<rparr>) (''defrag '' @ ''C:'' @ '' /OPTIMIZE'') = Process 3 1 ''Access is denied.'' \<and>
   Popen (slow_env\<lparr>admin_probe := IsUserAnAdmin True\<rparr>) (''defrag '' @ ''D:'' @ '' /OPTIMIZE'') = Process 3 1 ''Access is denied.'' \<and>
   ((\<exists>s' a. disk_cleanup WorkerThread (slow_env\<lparr>admin_probe := IsUserAnAdmin True\<rparr>) (init []) = (Returned, s') \<and>
            widget_ops s' =
              widget_ops (init []) @ [(WorkerThread, PanelDelete disk_cleanup_info), (WorkerThread, BarValue disk_cleanup_progress 100)] \<and>
            bar_value s' disk_cleanup_progress = bar_maximum s' disk_cleanup_progress \<and>
            last (gui_queue s') = Call_reset_progress_bar_with_delay disk_cleanup_progress 1000 \<and>
            after_calls (process_gui_queue s') =
              a @ [(1000, Cb_reset_value disk_cleanup_progress), (100, Cb_process_gui_queue)]) \<and>
         (\<exists>s' a. health_check_body WorkerThread (slow_env\<lparr>admin_probe := IsUserAnAdmin True\<rparr>) resolved_loggers (init []) = (Returned, s') \<and>
            bar_value s' system_health_check_progress = 100 \<and>
            bar_value s' system_health_check_progress = bar_maximum s' system_health_check_progress \<and>
            last (gui_queue s') = Call_reset_progress_bar_with_delay system_health_check_progress 1000 \<and>
            after_calls (process_gui_queue s') =
              a @ [(1000, Cb_reset_value system_health_check_progress), (100, Cb_process_gui_queue)]) \<and>
         (\<exists>s1. (run_commands WorkerThread (slow_env\<lparr>admin_probe := IsUserAnAdmin True\<rparr>) resolved_loggers 6 (100 / 6) ((1, ''checkhealth'', ''Dism.exe /online /Cleanup-Image /checkhealth'') # []) (init []) = run_commands WorkerThread (slow_env\<lparr>admin_probe := IsUserAnAdmin True\<rparr>) resolved_loggers 6 (100 / 6) [] s1 \<or>
                run_commands WorkerThread (slow_env\<lparr>admin_probe := IsUserAnAdmin True\<rparr>) resolved_loggers 6 (100 / 6) ((1, ''checkhealth'', ''Dism.exe /online /Cleanup-Image /checkhealth'') # []) (init []) = (Returned, s1)) \<and>
            bar_value s1 system_health_check_progress = bar_value (init []) system_health_check_progress + (100 / 6)) \<and>
         widget_ops (snd (optimize_drive WorkerThread (slow_env\<lparr>admin_probe := IsUserAnAdmin True\<rparr>) ''defragment'' (0, ''C:'') (init []))) =
           widget_ops (init []) @
           map (\<lambda>step. (WorkerThread, BarValue defragment_and_optimize_drives_progress (of_nat ((0 * 100) + (step + 1)))))
             [0..<min 3 100] \<and>
         widget_ops (snd (optimize_drive WorkerThread (slow_env\<lparr>admin_probe := IsUserAnAdmin True\<rparr>) ''defragment'' (1, ''D:'') (init []))) =
           widget_ops (init []) @
           map (\<lambda>step. (WorkerThread, BarValue defragment_and_optimize_drives_progress (of_nat ((1 * 100) + (step + 1)))))
             [0..<min 3 100] \<and>
         (\<exists>s' a. defragment_drives WorkerThread (slow_env\<lparr>admin_probe := IsUserAnAdmin True\<rparr>) (init []) = (Returned, s') \<and>
            last (gui_queue s') = Call_reset_progress_bar_with_delay defragment_and_optimize_drives_progress 1000 \<and>
            after_calls (process_gui_queue s') =
              a @ [(1000, Cb_reset_value defragment_and_optimize_drives_progress), (100, Cb_process_gui_queue)]) \<and>
         bar_value (run_callback (Cb_reset_value disk_cleanup_progress) (init [])) disk_cleanup_progress = 0)"
proof -
  have h1: "initialized (init [])"
    by (rule initialized_init)
  have h2: "is_admin (slow_env\<lparr>admin_probe := IsUserAnAdmin True\<rparr>)"
    by (simp add: is_admin_def)
  have h3: "bar_maximum (init []) system_health_check_progress = 100"
    by code_simp
  have h4: "bar_maximum (init []) disk_cleanup_progress = 100"
    by code_simp
  have h5: "Popen (slow_env\<lparr>admin_probe := IsUserAnAdmin True\<rparr>) (''defrag '' @ ''C:'' @ '' /OPTIMIZE'') = Process 3 1 ''Access is denied.''"
    by (simp add: slow_env_def)
  have h6: "Popen (slow_env\<lparr>admin_probe := IsUserAnAdmin True\<rparr>) (''defrag '' @ ''D:'' @ '' /OPTIMIZE'') = Process 3 1 ''Access is denied.''"
    by (simp add: slow_env_def)
  note w = progress_reporting [OF h1 h2 h3 h4 h5 h6, of WorkerThread resolved_loggers 6 "100 / 6" 1
      "''checkhealth''" "''Dism.exe /online /Cleanup-Image /checkhealth''" "[]" "''defragment''"
      disk_cleanup_progress "init []"]
  show ?thesis
    using h1 h2 h3 h4 h5 h6 w by simp
qed

end
